theory Spec2Isabelle
  imports Complex_Main
begin

section \<open>Python values and library calls used by spotifygithub.py\<close>

text \<open>
  The program is a single Python module: three functions that each make one HTTP call
  (\<open>refresh_access_token\<close>, \<open>get_current_playing\<close>, \<open>set_github_status\<close>),
  a helper that patches the \<open>.env\<close> file (\<open>update_env_file\<close>) and the endless loop
  \<open>main\<close>. The embedding makes every effect explicit:

  \<^item> what the outside world answers during one pass of the loop (clock readings, the three
    HTTP responses, whether the \<open>.env\<close> file can be opened) is a record
    \<open>world\<close>, so that one pass is a function of the world and the program state;
  \<^item> what the program does to the outside world is a list of \<open>event\<close>s (HTTP requests
    sent, file contents written, sleeps), in program order;
  \<^item> an exception is a value \<open>Inl e\<close> of a sum type, and every \<open>except\<close> clause of the
    source is a case distinction on it;
  \<^item> a JSON object is read through the keys the source reads; each key may be missing,
    hold \<open>null\<close>, or hold a value of the type the upstream API documents for it.
    Values of another JSON type under these keys are outside the model.
  \<^item> \<open>datetime\<close> values are integers, microseconds since \<open>datetime.min\<close>; the range
    checks of \<open>timedelta\<close> and of \<open>datetime + timedelta\<close> raise \<open>OverflowError\<close>;
  \<^item> the float \<open>POLL_INTERVAL\<close> is a real number; rounding, infinities and NaN are not
    modelled;
  \<^item> logging is omitted, and so is \<open>KeyboardInterrupt\<close>: the model describes the loop
    for as long as no interrupt arrives.
\<close>

datatype py_exn =
    KeyError | TypeError | OverflowError | ValueError | OSError
  | RequestException | JSONDecodeError

text \<open>Sequencing of statements that may raise.\<close>

definition bind_exn :: "py_exn + 'a \<Rightarrow> ('a \<Rightarrow> py_exn + 'b) \<Rightarrow> py_exn + 'b" where
  "bind_exn x f = (case x of Inl e \<Rightarrow> Inl e | Inr v \<Rightarrow> f v)"

text \<open>
  One key of a JSON object. Python's \<open>None\<close> is \<open>None\<close> of an option type:
  \<open>d.get(k)\<close> is \<open>dict_get\<close>, \<open>d.get(k, default)\<close> is \<open>dict_get_default\<close> (the default
  replaces a missing key only, a \<open>null\<close> comes back as \<open>None\<close>), and \<open>d[k]\<close> is
  \<open>dict_item\<close>, which raises \<open>KeyError\<close> on a missing key.
\<close>

datatype 'a field = Missing | Null | Val 'a

definition dict_get :: "'a field \<Rightarrow> 'a option" where
  "dict_get f = (case f of Missing \<Rightarrow> None | Null \<Rightarrow> None | Val v \<Rightarrow> Some v)"

definition dict_get_default :: "'a field \<Rightarrow> 'a \<Rightarrow> 'a option" where
  "dict_get_default f d = (case f of Missing \<Rightarrow> Some d | Null \<Rightarrow> None | Val v \<Rightarrow> Some v)"

definition dict_item :: "'a field \<Rightarrow> py_exn + 'a option" where
  "dict_item f = (case f of Missing \<Rightarrow> Inl KeyError | Null \<Rightarrow> Inr None | Val v \<Rightarrow> Inr (Some v))"

text \<open>Truth values of \<open>str | None\<close> and \<open>bool | None\<close>.\<close>

definition truthy_str :: "string option \<Rightarrow> bool" where
  "truthy_str v = (case v of None \<Rightarrow> False | Some s \<Rightarrow> s \<noteq> [])"

definition truthy_bool :: "bool option \<Rightarrow> bool" where
  "truthy_bool v = (case v of None \<Rightarrow> False | Some b \<Rightarrow> b)"

text \<open>\<open>f"{v}"\<close> for \<open>v\<close> a \<open>str\<close> or \<open>None\<close>.\<close>

definition format_str :: "string option \<Rightarrow> string" where
  "format_str v = (case v of None \<Rightarrow> ''None'' | Some s \<Rightarrow> s)"

text \<open>\<open>sep.join(xs)\<close> and \<open>s.startswith(p)\<close>.\<close>

fun join :: "string \<Rightarrow> string list \<Rightarrow> string" where
  "join sep [] = []"
| "join sep [x] = x"
| "join sep (x # y # ys) = x @ sep @ join sep (y # ys)"

definition startswith :: "string \<Rightarrow> string \<Rightarrow> bool" where
  "startswith s p = (take (length p) s = p)"

text \<open>\<open>a - b\<close> on \<open>int | None\<close>: \<open>TypeError\<close> when an operand is \<open>None\<close>.\<close>

definition py_sub :: "int option \<Rightarrow> int option \<Rightarrow> py_exn + int" where
  "py_sub a b = (case a of None \<Rightarrow> Inl TypeError
                 | Some x \<Rightarrow> (case b of None \<Rightarrow> Inl TypeError | Some y \<Rightarrow> Inr (x - y)))"

subsection \<open>datetime and timedelta\<close>

text \<open>
  A \<open>timedelta\<close> is a number of microseconds whose day count has magnitude at most
  999999999; a \<open>datetime\<close> lies between year 1 and the last microsecond of year 9999
  (\<open>date.max.toordinal() = 3652059\<close>).
\<close>

definition timedelta_min :: int where
  "timedelta_min = - (999999999 * 86400 * 1000000)"

definition timedelta_max :: int where
  "timedelta_max = 1000000000 * 86400 * 1000000 - 1"

definition datetime_max :: int where
  "datetime_max = 3652059 * 86400 * 1000000 - 1"

definition timedelta :: "int \<Rightarrow> py_exn + int" where
  "timedelta us = (if us < timedelta_min \<or> timedelta_max < us then Inl OverflowError else Inr us)"

definition timedelta_seconds :: "int option \<Rightarrow> py_exn + int" where
  "timedelta_seconds s = (case s of None \<Rightarrow> Inl TypeError | Some n \<Rightarrow> timedelta (n * 1000000))"

definition timedelta_milliseconds :: "int \<Rightarrow> py_exn + int" where
  "timedelta_milliseconds ms = timedelta (ms * 1000)"

definition datetime_add :: "int \<Rightarrow> int \<Rightarrow> py_exn + int" where
  "datetime_add t d = (if t + d < 0 \<or> datetime_max < t + d then Inl OverflowError else Inr (t + d))"

subsection \<open>HTTP responses and the JSON bodies the program reads\<close>

text \<open>
  \<open>requests.get\<close>/\<open>requests.post\<close> either raise or give a response with a status code
  and a body. The body is \<open>None\<close> when reading it as a JSON object raises (\<open>r.json()\<close>
  fails, or the document is not an object).
\<close>

datatype 'b http_result = ConnectionError | Response int "'b option"

record token_json =
  tj_access_token :: "string field"
  tj_expires_in :: "int field"
  tj_refresh_token :: "string field"
  tj_error :: "string field"

record artist_json =
  ar_name :: "string field"

text \<open>\<open>it_other_keys\<close>: the item object has a key besides the three the program reads.\<close>

record item_json =
  it_name :: "string field"
  it_artists :: "artist_json list field"
  it_duration_ms :: "int field"
  it_other_keys :: bool

record playing_json =
  pj_item :: "item_json field"
  pj_progress_ms :: "int field"
  pj_is_playing :: "bool field"

text \<open>\<open>gj_errors_present\<close>: \<open>"errors" in response_data\<close>.\<close>

record github_json =
  gj_errors_present :: bool

subsection \<open>Configuration, world, events\<close>

record config =
  POLL_INTERVAL :: real
  STATUS_PREFIX :: string
  CLEAR_STATUS_WHEN_IDLE :: bool

text \<open>
  The answers of the outside world during one pass of the loop in \<open>main\<close>, in the order
  the pass may ask for them. A pass that does not reach a call ignores its answer.
\<close>

record world =
  utcnow_main :: int
  token_response :: "token_json http_result"
  env_open_ok :: bool
  utcnow_refresh :: int
  playing_response :: "playing_json http_result"
  now_poll :: int
  github_response :: "github_json http_result"

text \<open>
  \<open>TokenRequest t\<close>: the POST to the token endpoint with refresh token \<open>t\<close>;
  \<open>WriteEnv c\<close>: the \<open>.env\<close> file rewritten with content \<open>c\<close>;
  \<open>PlaybackRequest a\<close>: the GET of the currently playing track with bearer \<open>a\<close>;
  \<open>StatusRequest m e\<close>: the GraphQL mutation, \<open>m = None\<close> for the clearing one;
  \<open>Sleep s\<close>: \<open>time.sleep(s)\<close>.
\<close>

datatype event =
    TokenRequest string
  | WriteEnv string
  | PlaybackRequest "string option"
  | StatusRequest "string option" "int option"
  | Sleep real

text \<open>\<open>time.sleep\<close> raises \<open>ValueError\<close> on a negative length.\<close>

definition sleep :: "real \<Rightarrow> py_exn + event list" where
  "sleep secs = (if secs < 0 then Inl ValueError else Inr [Sleep secs])"

section \<open>update_env_file\<close>

text \<open>
  The file is its text, as Python's text mode presents it (line ends read as one
  newline character); \<open>readlines\<close> cuts it after each newline, \<open>writelines\<close> is
  \<open>concat\<close>. The module's mutable globals are the refresh token and, as the durable
  store, the \<open>.env\<close> file (\<open>None\<close> when it does not exist).
\<close>

definition newline :: char where
  "newline = CHR 0x0A"

fun readlines :: "string \<Rightarrow> string list" where
  "readlines [] = []"
| "readlines (c # cs) =
     (if c = newline then [c] # readlines cs
      else (case readlines cs of [] \<Rightarrow> [[c]] | l # ls \<Rightarrow> (c # l) # ls))"

text \<open>
  The \<open>for\<close> loop of lines 37 to 41: the first line that starts with \<open>key=\<close> is replaced;
  \<open>None\<close> stands for \<open>updated = False\<close>.
\<close>

fun patch_lines :: "string \<Rightarrow> string \<Rightarrow> string list \<Rightarrow> string list option" where
  "patch_lines key new [] = None"
| "patch_lines key new (line # rest) =
     (if startswith line (key @ ''='') then Some (new # rest)
      else map_option ((#) line) (patch_lines key new rest))"

text \<open>\<open>os.environ[key] = value\<close> refuses an empty name, \<open>=\<close> in the name and NUL bytes.\<close>

definition os_environ_set :: "string \<Rightarrow> string \<Rightarrow> py_exn + unit" where
  "os_environ_set key v =
     (if key = [] \<or> CHR ''='' \<in> set key \<or> CHR 0x00 \<in> set key \<or> CHR 0x00 \<in> set v
      then Inl ValueError else Inr ())"

text \<open>
  The result is the returned flag, the file afterwards and the events. The I/O failure
  modelled is that of the two \<open>open\<close> calls, for reading and then for writing
  (\<open>env_open_ok\<close> is false when one of them raises \<open>OSError\<close>, which the \<open>except\<close>
  clause turns into \<open>False\<close>); it leaves the file as it was. Partial writes are not
  modelled. An exception of \<open>os.environ[key] = value\<close> comes after the file has been
  written.
\<close>

definition update_env_file ::
  "world \<Rightarrow> string option \<Rightarrow> string \<Rightarrow> string \<Rightarrow> bool \<times> string option \<times> event list" where
  "update_env_file w fs key v =
     (case fs of
        None \<Rightarrow> (False, fs, [])
      | Some content \<Rightarrow>
          if \<not> env_open_ok w then (False, fs, [])
          else
            (let lines = readlines content;
                 new = key @ ''='' @ v @ [newline];
                 lines' = (case patch_lines key new lines of
                             Some ls \<Rightarrow> ls
                           | None \<Rightarrow> lines @ [new])
             in case os_environ_set key v of
                  Inl e \<Rightarrow> (False, Some (concat lines'), [WriteEnv (concat lines')])
                | Inr u \<Rightarrow> (True, Some (concat lines'), [WriteEnv (concat lines')])))"

section \<open>refresh_access_token\<close>

record process_globals =
  SPOTIFY_REFRESH_TOKEN :: string
  env_file :: "string option"

record token_data =
  td_access_token :: "string option"
  td_expires_at :: int

text \<open>\<open>now + timedelta(seconds=expires_in)\<close>, line 102.\<close>

definition expiry_after :: "int \<Rightarrow> int option \<Rightarrow> py_exn + int" where
  "expiry_after now expires_in = bind_exn (timedelta_seconds expires_in) (datetime_add now)"

text \<open>
  Lines 90 to 98. Both branches after \<open>update_env_file\<close> assign the global; only the
  log line differs.
\<close>

definition rotate_refresh_token ::
  "world \<Rightarrow> process_globals \<Rightarrow> string option \<Rightarrow> process_globals \<times> event list" where
  "rotate_refresh_token w g new_refresh_token =
     (case new_refresh_token of
        None \<Rightarrow> (g, [])
      | Some tok \<Rightarrow>
          if tok \<noteq> [] \<and> tok \<noteq> SPOTIFY_REFRESH_TOKEN g then
            (case update_env_file w (env_file g) ''SPOTIFY_REFRESH_TOKEN'' tok of
               (ok, fs', ev) \<Rightarrow>
                 if ok then (\<lparr>SPOTIFY_REFRESH_TOKEN = tok, env_file = fs'\<rparr>, ev)
                 else (\<lparr>SPOTIFY_REFRESH_TOKEN = tok, env_file = fs'\<rparr>, ev))
          else (g, []))"

text \<open>
  The body of the \<open>try\<close> block, lines 74 to 103. An exception leaves the globals as the
  statements before it made them.
\<close>

definition refresh_access_token_body ::
  "world \<Rightarrow> process_globals \<Rightarrow> (py_exn + token_data option) \<times> process_globals \<times> event list" where
  "refresh_access_token_body w g =
     (let sent = [TokenRequest (SPOTIFY_REFRESH_TOKEN g)] in
      case token_response w of
        ConnectionError \<Rightarrow> (Inl RequestException, g, sent)
      | Response status_code body \<Rightarrow>
          if status_code \<noteq> 200 then
            (if status_code = 400 then
               (case body of
                  None \<Rightarrow> (Inl JSONDecodeError, g, sent)
                | Some error_data \<Rightarrow>
                    if dict_get (tj_error error_data) = Some ''invalid_grant''
                    then (Inr None, g, sent)
                    else (Inr None, g, sent))
             else (Inr None, g, sent))
          else
            (case body of
               None \<Rightarrow> (Inl JSONDecodeError, g, sent)
             | Some data \<Rightarrow>
                 (let access_token = dict_get (tj_access_token data);
                      expires_in = dict_get_default (tj_expires_in data) 3600;
                      new_refresh_token = dict_get (tj_refresh_token data)
                  in case rotate_refresh_token w g new_refresh_token of
                       (g', ev) \<Rightarrow>
                         (case expiry_after (utcnow_refresh w) expires_in of
                            Inl e \<Rightarrow> (Inl e, g', sent @ ev)
                          | Inr t \<Rightarrow>
                              (Inr (Some \<lparr>td_access_token = access_token, td_expires_at = t\<rparr>),
                               g', sent @ ev)))))"

text \<open>\<open>except Exception\<close>: log and return \<open>None\<close>.\<close>

definition refresh_access_token ::
  "world \<Rightarrow> process_globals \<Rightarrow> token_data option \<times> process_globals \<times> event list" where
  "refresh_access_token w g =
     (case refresh_access_token_body w g of
        (Inl e, g', ev) \<Rightarrow> (None, g', ev)
      | (Inr r, g', ev) \<Rightarrow> (r, g', ev))"

section \<open>get_current_playing\<close>

text \<open>The three kinds of return value: \<open>None\<close>, the string \<open>"TOKEN_EXPIRED"\<close>, a dict.\<close>

datatype poll_result = PNone | TOKEN_EXPIRED | TrackInfo string int

text \<open>A dict is false exactly when it has no key.\<close>

definition item_truthy :: "item_json \<Rightarrow> bool" where
  "item_truthy item =
     (it_name item \<noteq> Missing \<or> it_artists item \<noteq> Missing \<or> it_duration_ms item \<noteq> Missing
      \<or> it_other_keys item)"

text \<open>
  \<open>", ".join(a["name"] for a in data["item"]["artists"])\<close>: \<open>join\<close> first runs the
  generator to its end (\<open>KeyError\<close> at the first artist without a name), then refuses
  an element that is not a \<open>str\<close> (\<open>TypeError\<close>).
\<close>

fun artist_names :: "artist_json list \<Rightarrow> py_exn + string option list" where
  "artist_names [] = Inr []"
| "artist_names (a # rest) =
     bind_exn (dict_item (ar_name a)) (\<lambda>n. bind_exn (artist_names rest) (\<lambda>ns. Inr (n # ns)))"

fun str_items :: "string option list \<Rightarrow> py_exn + string list" where
  "str_items [] = Inr []"
| "str_items (None # rest) = Inl TypeError"
| "str_items (Some s # rest) = bind_exn (str_items rest) (\<lambda>ss. Inr (s # ss))"

definition join_artists :: "item_json \<Rightarrow> py_exn + string" where
  "join_artists item =
     bind_exn (dict_item (it_artists item)) (\<lambda>arts.
       case arts of
         None \<Rightarrow> Inl TypeError
       | Some as \<Rightarrow>
           bind_exn (artist_names as) (\<lambda>ns.
           bind_exn (str_items ns) (\<lambda>ss. Inr (join '', '' ss))))"

text \<open>The body of the \<open>try\<close> block, lines 115 to 139.\<close>

definition get_current_playing_body :: "config \<Rightarrow> world \<Rightarrow> py_exn + poll_result" where
  "get_current_playing_body cfg w =
     (case playing_response w of
        ConnectionError \<Rightarrow> Inl RequestException
      | Response status_code body \<Rightarrow>
          if status_code = 204 then Inr PNone
          else if status_code = 401 then Inr TOKEN_EXPIRED
          else if status_code \<noteq> 200 then Inr PNone
          else
            (case body of
               None \<Rightarrow> Inl JSONDecodeError
             | Some data \<Rightarrow>
                 (case dict_get (pj_item data) of
                    None \<Rightarrow> Inr PNone
                  | Some item \<Rightarrow>
                      if \<not> item_truthy item
                         \<or> \<not> truthy_bool (dict_get_default (pj_is_playing data) False)
                      then Inr PNone
                      else
                        bind_exn (dict_item (it_name item)) (\<lambda>name.
                        bind_exn (join_artists item) (\<lambda>artists.
                        let message = STATUS_PREFIX cfg @ format_str name @ '' by '' @ artists;
                            progress_ms = dict_get_default (pj_progress_ms data) 0;
                            duration_ms = dict_get_default (it_duration_ms item) 0
                        in bind_exn (py_sub duration_ms progress_ms) (\<lambda>diff.
                           let remaining_ms = max diff 0
                           in bind_exn (timedelta_milliseconds remaining_ms) (\<lambda>td.
                              bind_exn (datetime_add (now_poll w) td) (\<lambda>expires_at.
                              Inr (TrackInfo message expires_at)))))))))"

text \<open>\<open>except Exception\<close>: log and return \<open>None\<close>. The request is sent in every case.\<close>

definition get_current_playing ::
  "config \<Rightarrow> world \<Rightarrow> string option \<Rightarrow> poll_result \<times> event list" where
  "get_current_playing cfg w access_token =
     (case get_current_playing_body cfg w of
        Inl e \<Rightarrow> (PNone, [PlaybackRequest access_token])
      | Inr r \<Rightarrow> (r, [PlaybackRequest access_token]))"

section \<open>set_github_status\<close>

text \<open>
  With \<open>message = None\<close> the clearing mutation is sent, without variables; otherwise the
  message and the expiry (a \<open>datetime\<close> is always true, so it is sent whenever given).
\<close>

definition set_github_status ::
  "world \<Rightarrow> string option \<Rightarrow> int option \<Rightarrow> bool \<times> event list" where
  "set_github_status w message expires_at =
     (let sent = (case message of
                    None \<Rightarrow> [StatusRequest None None]
                  | Some m \<Rightarrow> [StatusRequest (Some m) expires_at])
      in case github_response w of
           ConnectionError \<Rightarrow> (False, sent)
         | Response status_code body \<Rightarrow>
             if status_code \<noteq> 200 then (False, sent)
             else (case body of
                     None \<Rightarrow> (False, sent)
                   | Some response_data \<Rightarrow>
                       if gj_errors_present response_data then (False, sent)
                       else (True, sent)))"

section \<open>main\<close>

record state =
  access_token :: "string option"
  expires_at_token :: int
  last_status :: "string option"
  consecutive_failures :: nat
  globs :: process_globals

definition max_failures :: nat where
  "max_failures = 5"

text \<open>
  How one pass of the \<open>while True\<close> loop ends: at the next pass with a new state
  (\<open>continue\<close>, or the end of the body), or with the process gone (\<open>sys.exit(1)\<close>, or an
  exception that leaves \<open>main\<close> and reaches the \<open>sys.exit(1)\<close> of the module's last
  lines).
\<close>

datatype outcome = Continue state "event list" | Exit int "event list"

text \<open>
  \<open>except Exception\<close> of the loop, lines 253 to 255. An exception raised by the sleep of
  the handler itself leaves \<open>main\<close>.
\<close>

definition handle_exception :: "config \<Rightarrow> state \<Rightarrow> event list \<Rightarrow> outcome" where
  "handle_exception cfg st ev =
     (case sleep (POLL_INTERVAL cfg) of
        Inl e \<Rightarrow> Exit 1 ev
      | Inr s \<Rightarrow> Continue st (ev @ s))"

text \<open>
  The condition of line 203. \<open>or\<close> does not evaluate its right side when the left is
  true; \<open>datetime - timedelta\<close> raises below year 1.
\<close>

definition needs_refresh :: "world \<Rightarrow> state \<Rightarrow> py_exn + bool" where
  "needs_refresh w st =
     (if \<not> truthy_str (access_token st) then Inr True
      else bind_exn (datetime_add (expires_at_token st) (- 60000000))
             (\<lambda>limit. Inr (limit \<le> utcnow_main w)))"

text \<open>Lines 231 to 236: the candidate message and its expiry.\<close>

definition status_of :: "poll_result \<Rightarrow> string option \<times> int option" where
  "status_of track_info =
     (case track_info of
        TrackInfo message expires_at \<Rightarrow> (Some message, Some expires_at)
      | _ \<Rightarrow> (None, None))"

text \<open>Lines 238 to 243: publish a changed status; remember it only when that succeeded.\<close>

definition publish_changes ::
  "config \<Rightarrow> world \<Rightarrow> state \<Rightarrow> string option \<Rightarrow> int option \<Rightarrow> state \<times> event list" where
  "publish_changes cfg w st status_message status_expires =
     (if status_message \<noteq> last_status st then
        (if status_message = None \<and> \<not> CLEAR_STATUS_WHEN_IDLE cfg then (st, [])
         else (case set_github_status w status_message status_expires of
                 (ok, ev) \<Rightarrow>
                   if ok then (st\<lparr>last_status := status_message\<rparr>, ev) else (st, ev)))
      else (st, []))"

text \<open>Lines 224 to 245, entered with the events \<open>ev\<close> of the pass so far.\<close>

definition poll_phase :: "config \<Rightarrow> world \<Rightarrow> state \<Rightarrow> event list \<Rightarrow> outcome" where
  "poll_phase cfg w st ev =
     (case get_current_playing cfg w (access_token st) of
        (track_info, ev1) \<Rightarrow>
          if track_info = TOKEN_EXPIRED then Continue (st\<lparr>access_token := None\<rparr>) (ev @ ev1)
          else
            (case status_of track_info of
               (status_message, status_expires) \<Rightarrow>
                 (case publish_changes cfg w st status_message status_expires of
                    (st', ev2) \<Rightarrow>
                      (case sleep (POLL_INTERVAL cfg) of
                         Inl e \<Rightarrow> handle_exception cfg st' (ev @ ev1 @ ev2)
                       | Inr s \<Rightarrow> Continue st' (ev @ ev1 @ ev2 @ s)))))"

text \<open>
  Lines 203 to 222. \<open>Inl\<close>: the pass ends here (exit, or \<open>continue\<close> after the back-off
  sleep, or the exception handler); \<open>Inr\<close>: the pass goes on to poll, with the state
  and the events so far.
\<close>

definition token_phase :: "config \<Rightarrow> world \<Rightarrow> state \<Rightarrow> outcome + state \<times> event list" where
  "token_phase cfg w st =
     (case needs_refresh w st of
        Inl e \<Rightarrow> Inl (handle_exception cfg st [])
      | Inr False \<Rightarrow> Inr (st, [])
      | Inr True \<Rightarrow>
          (case refresh_access_token w (globs st) of
             (token_data, g', ev) \<Rightarrow>
               (case token_data of
                  None \<Rightarrow>
                    (let st1 = st\<lparr>globs := g',
                                   consecutive_failures := consecutive_failures st + 1\<rparr>
                     in if max_failures \<le> consecutive_failures st1 then Inl (Exit 1 ev)
                        else
                          (let wait_time =
                                 min (POLL_INTERVAL cfg * real (consecutive_failures st1)) 300
                           in case sleep wait_time of
                                Inl e \<Rightarrow> Inl (handle_exception cfg st1 ev)
                              | Inr s \<Rightarrow> Inl (Continue st1 (ev @ s))))
                | Some td \<Rightarrow>
                    Inr (st\<lparr>globs := g',
                            access_token := td_access_token td,
                            expires_at_token := td_expires_at td,
                            consecutive_failures := 0\<rparr>, ev))))"

definition iteration :: "config \<Rightarrow> world \<Rightarrow> state \<Rightarrow> outcome" where
  "iteration cfg w st =
     (case token_phase cfg w st of
        Inl out \<Rightarrow> out
      | Inr (st1, ev) \<Rightarrow> poll_phase cfg w st1 ev)"

text \<open>
  The loop never ends by itself. \<open>main_loop\<close> runs it against a finite list of worlds,
  one per pass, and gives the outcome of every pass made: it stops at the first
  \<open>Exit\<close>, or when the list is used up with the process still running.
\<close>

fun main_loop :: "config \<Rightarrow> world list \<Rightarrow> state \<Rightarrow> outcome list" where
  "main_loop cfg [] st = []"
| "main_loop cfg (w # ws) st =
     (case iteration cfg w st of
        Exit code ev \<Rightarrow> [Exit code ev]
      | Continue st' ev \<Rightarrow> Continue st' ev # main_loop cfg ws st')"

text \<open>The locals of \<open>main\<close> at its first pass, started at time \<open>t0\<close>.\<close>

definition initial_state :: "int \<Rightarrow> process_globals \<Rightarrow> state" where
  "initial_state t0 g =
     \<lparr>access_token = None, expires_at_token = t0, last_status = None,
      consecutive_failures = 0, globs = g\<rparr>"

fun events_of :: "outcome \<Rightarrow> event list" where
  "events_of (Continue st ev) = ev"
| "events_of (Exit code ev) = ev"

section \<open>Observations on runs\<close>

text \<open>
  The candidate message of a pass: \<open>Some m\<close> when the pass polls and the poll does not
  answer \<open>"TOKEN_EXPIRED"\<close> (\<open>m\<close> is \<open>status_message\<close>, \<open>None\<close> when idle), \<open>None\<close>
  when the pass ends before line 231.
\<close>

definition candidate_of :: "config \<Rightarrow> world \<Rightarrow> state \<Rightarrow> string option option" where
  "candidate_of cfg w st =
     (case token_phase cfg w st of
        Inl out \<Rightarrow> None
      | Inr (st1, ev) \<Rightarrow>
          (case fst (get_current_playing cfg w (access_token st1)) of
             TOKEN_EXPIRED \<Rightarrow> None
           | r \<Rightarrow> Some (fst (status_of r))))"

text \<open>The candidate messages of a run, in order, and \<open>last_status\<close> after each pass.\<close>

fun candidates :: "config \<Rightarrow> world list \<Rightarrow> state \<Rightarrow> string option list" where
  "candidates cfg [] st = []"
| "candidates cfg (w # ws) st =
     (case candidate_of cfg w st of None \<Rightarrow> [] | Some c \<Rightarrow> [c])
     @ (case iteration cfg w st of
          Exit code ev \<Rightarrow> []
        | Continue st' ev \<Rightarrow> candidates cfg ws st')"

fun statuses :: "outcome list \<Rightarrow> string option list" where
  "statuses [] = []"
| "statuses (Continue st ev # rest) = last_status st # statuses rest"
| "statuses (Exit code ev # rest) = statuses rest"

text \<open>How often a list changes value from one element to the next.\<close>

fun count_changes :: "'a list \<Rightarrow> nat" where
  "count_changes (x # y # ys) = (if x \<noteq> y then 1 else 0) + count_changes (y # ys)"
| "count_changes xs = 0"

fun is_status_request :: "event \<Rightarrow> bool" where
  "is_status_request (StatusRequest m e) = True"
| "is_status_request ev = False"

fun is_sleep :: "event \<Rightarrow> bool" where
  "is_sleep (Sleep s) = True"
| "is_sleep ev = False"

fun is_write_env :: "event \<Rightarrow> bool" where
  "is_write_env (WriteEnv c) = True"
| "is_write_env ev = False"

definition trace :: "outcome list \<Rightarrow> event list" where
  "trace outs = concat (map events_of outs)"

text \<open>A line that ends in its only newline.\<close>

definition whole_line :: "string \<Rightarrow> bool" where
  "whole_line l = (l \<noteq> [] \<and> last l = newline \<and> newline \<notin> set (butlast l))"

text \<open>
  The lines of a text: every line but the last ends in its only newline, and the last
  is not empty and has no newline before its last character.
\<close>

definition text_lines :: "string list \<Rightarrow> bool" where
  "text_lines ls =
     ((\<forall>l \<in> set (butlast ls). whole_line l)
      \<and> (ls \<noteq> [] \<longrightarrow> last ls \<noteq> [] \<and> newline \<notin> set (butlast (last ls))))"

text \<open>The file has a line that starts with \<open>key=\<close>.\<close>

definition has_key_line :: "string \<Rightarrow> string \<Rightarrow> bool" where
  "has_key_line content key = list_ex (\<lambda>line. startswith line (key @ ''='')) (readlines content)"

text \<open>The \<open>.env\<close> file, read back, has the line \<open>key=v\<close>.\<close>

definition env_has :: "string option \<Rightarrow> string \<Rightarrow> string \<Rightarrow> bool" where
  "env_has fs key v =
     (case fs of
        None \<Rightarrow> False
      | Some content \<Rightarrow> (key @ ''='' @ v @ [newline]) \<in> set (readlines content))"

section \<open>Example inputs\<close>

definition example_time :: int where
  "example_time = 63900000000000000"

definition example_config :: config where
  "example_config =
     \<lparr>POLL_INTERVAL = 15, STATUS_PREFIX = ''Now: '', CLEAR_STATUS_WHEN_IDLE = True\<rparr>"

definition example_globals :: process_globals where
  "example_globals =
     \<lparr>SPOTIFY_REFRESH_TOKEN = ''rt0'',
      env_file = Some (''SPOTIFY_CLIENT_ID=abc'' @ [newline]
                       @ ''SPOTIFY_REFRESH_TOKEN=rt0'' @ [newline])\<rparr>"

definition song_item :: item_json where
  "song_item =
     \<lparr>it_name = Val ''Song'',
      it_artists = Val [\<lparr>ar_name = Val ''A''\<rparr>, \<lparr>ar_name = Val ''B''\<rparr>],
      it_duration_ms = Val 40000, it_other_keys = True\<rparr>"

definition song_playing :: playing_json where
  "song_playing =
     \<lparr>pj_item = Val song_item, pj_progress_ms = Val 10000, pj_is_playing = Val True\<rparr>"

definition token_ok :: token_json where
  "token_ok =
     \<lparr>tj_access_token = Val ''at1'', tj_expires_in = Val 3600, tj_refresh_token = Missing,
      tj_error = Missing\<rparr>"

definition token_rotated :: token_json where
  "token_rotated = token_ok\<lparr>tj_refresh_token := Val ''rt1''\<rparr>"

definition token_invalid_grant :: token_json where
  "token_invalid_grant =
     \<lparr>tj_access_token = Missing, tj_expires_in = Missing, tj_refresh_token = Missing,
      tj_error = Val ''invalid_grant''\<rparr>"

text \<open>Every call succeeds and the track of Scenario B is playing.\<close>

definition example_world :: world where
  "example_world =
     \<lparr>utcnow_main = example_time,
      token_response = Response 200 (Some token_ok),
      env_open_ok = True,
      utcnow_refresh = example_time,
      playing_response = Response 200 (Some song_playing),
      now_poll = example_time,
      github_response = Response 200 (Some \<lparr>gj_errors_present = False\<rparr>)\<rparr>"

definition world_rotated :: world where
  "world_rotated = example_world\<lparr>token_response := Response 200 (Some token_rotated)\<rparr>"

definition world_invalid_grant :: world where
  "world_invalid_grant =
     example_world\<lparr>token_response := Response 400 (Some token_invalid_grant)\<rparr>"

definition world_token_down :: world where
  "world_token_down = example_world\<lparr>token_response := ConnectionError\<rparr>"

definition world_idle :: world where
  "world_idle = example_world\<lparr>playing_response := Response 204 None\<rparr>"

definition world_unauthorized :: world where
  "world_unauthorized = example_world\<lparr>playing_response := Response 401 None\<rparr>"

definition world_no_is_playing :: world where
  "world_no_is_playing =
     example_world\<lparr>playing_response :=
       Response 200 (Some (song_playing\<lparr>pj_is_playing := Missing\<rparr>))\<rparr>"

definition world_publish_fails :: world where
  "world_publish_fails = example_world\<lparr>github_response := ConnectionError\<rparr>"

text \<open>A state between two polls: a token good for an hour, the song published.\<close>

definition state_playing :: state where
  "state_playing =
     \<lparr>access_token = Some ''at1'', expires_at_token = example_time + 3600000000,
      last_status = Some ''Now: Song by A, B'', consecutive_failures = 0,
      globs = example_globals\<rparr>"

section \<open>Properties\<close>

subsection \<open>get_current_playing\<close>

lemma artist_names_Val:
  "map ar_name arts = map Val names \<Longrightarrow> artist_names arts = Inr (map Some names)"
  by (induction arts arbitrary: names) (auto simp: bind_exn_def dict_item_def)

lemma str_items_Some: "str_items (map Some names) = Inr names"
  by (induction names) (auto simp: bind_exn_def)

lemma timedelta_in_range:
  "0 \<le> us \<Longrightarrow> us \<le> datetime_max \<Longrightarrow> timedelta us = Inr us"
  by (simp add: timedelta_def timedelta_min_def timedelta_max_def datetime_max_def)

text \<open>
  C6. A 200 response whose item has a name and artists with names, with
  \<open>is_playing\<close> true and with \<open>progress_ms\<close> and \<open>duration_ms\<close> integers (or missing,
  read as 0): the poll returns the message prefix, name, \<open>" by "\<close>, the artist names
  joined by \<open>", "\<close> in their order, expiring at now plus
  \<open>max(duration_ms - progress_ms, 0)\<close> milliseconds, provided that instant is a
  \<open>datetime\<close>.
\<close>

theorem poll_builds_message_and_expiry:
  assumes resp: "playing_response w = Response 200 (Some data)"
      and item: "pj_item data = Val item"
      and playing: "pj_is_playing data = Val True"
      and name: "it_name item = Val name"
      and arts: "it_artists item = Val arts"
      and names: "map ar_name arts = map Val names"
      and progress: "dict_get_default (pj_progress_ms data) 0 = Some progress_ms"
      and duration: "dict_get_default (it_duration_ms item) 0 = Some duration_ms"
      and now: "0 \<le> now_poll w"
      and range: "now_poll w + 1000 * max (duration_ms - progress_ms) 0 \<le> datetime_max"
  shows "fst (get_current_playing cfg w tok) =
           TrackInfo (STATUS_PREFIX cfg @ name @ '' by '' @ join '', '' names)
                     (now_poll w + 1000 * max (duration_ms - progress_ms) 0)"
proof -
  let ?remaining = "max (duration_ms - progress_ms) 0"
  have truthy: "item_truthy item"
    using name by (simp add: item_truthy_def)
  have joined: "join_artists item = Inr (join '', '' names)"
    using arts artist_names_Val [OF names]
    by (simp add: join_artists_def dict_item_def bind_exn_def str_items_Some)
  have td: "timedelta_milliseconds ?remaining = Inr (1000 * ?remaining)"
  proof -
    have "0 \<le> ?remaining * 1000" by simp
    moreover have "?remaining * 1000 \<le> datetime_max" using now range by linarith
    ultimately have "timedelta (?remaining * 1000) = Inr (?remaining * 1000)"
      by (rule timedelta_in_range)
    then show ?thesis by (simp add: timedelta_milliseconds_def mult.commute)
  qed
  have add: "datetime_add (now_poll w) (1000 * ?remaining) = Inr (now_poll w + 1000 * ?remaining)"
  proof -
    have "0 \<le> 1000 * ?remaining" by simp
    with now have "0 \<le> now_poll w + 1000 * ?remaining" by linarith
    with range show ?thesis by (simp add: datetime_add_def)
  qed
  have "get_current_playing_body cfg w =
          Inr (TrackInfo (STATUS_PREFIX cfg @ name @ '' by '' @ join '', '' names)
                         (now_poll w + 1000 * ?remaining))"
    using resp item playing name truthy joined progress duration td add
    by (simp add: get_current_playing_body_def dict_get_def dict_get_default_def
        truthy_bool_def dict_item_def bind_exn_def format_str_def py_sub_def Let_def)
  then show ?thesis
    by (simp add: get_current_playing_def)
qed

text \<open>Scenario B: \<open>"Song"\<close> by \<open>["A", "B"]\<close>, 10000 of 40000 ms played.\<close>

theorem poll_builds_message_and_expiry_witness:
  "playing_response example_world = Response 200 (Some song_playing) \<and>
   fst (get_current_playing example_config example_world None) =
     TrackInfo ''Now: Song by A, B'' (example_time + 30000000)"
  using poll_builds_message_and_expiry [of example_world song_playing song_item "''Song''"
      "[\<lparr>ar_name = Val ''A''\<rparr>, \<lparr>ar_name = Val ''B''\<rparr>]" "[''A'', ''B'']" 10000 40000
      example_config None]
  by (simp add: example_world_def song_playing_def song_item_def example_config_def
      example_time_def dict_get_default_def datetime_max_def)

text \<open>
  C10. A 200 response without the \<open>item\<close> key, or whose \<open>is_playing\<close> key is missing
  or false: the poll returns \<open>None\<close>, by the \<open>return None\<close> of line 127 and not through
  the exception handler; a missing \<open>is_playing\<close> is read as false.
\<close>

theorem poll_absent_without_item_or_is_playing:
  assumes "playing_response w = Response 200 (Some data)"
      and "pj_item data = Missing \<or> pj_is_playing data = Missing \<or> pj_is_playing data = Val False"
  shows "get_current_playing_body cfg w = Inr PNone \<and> fst (get_current_playing cfg w tok) = PNone"
  using assms
  by (auto simp: get_current_playing_def get_current_playing_body_def dict_get_def
      dict_get_default_def truthy_bool_def split: field.splits option.splits)

theorem poll_absent_without_item_or_is_playing_witness:
  "playing_response world_no_is_playing
     = Response 200 (Some (song_playing\<lparr>pj_is_playing := Missing\<rparr>)) \<and>
   get_current_playing_body example_config world_no_is_playing = Inr PNone \<and>
   get_current_playing example_config world_no_is_playing None = (PNone, [PlaybackRequest None])"
  using poll_absent_without_item_or_is_playing [of world_no_is_playing
      "song_playing\<lparr>pj_is_playing := Missing\<rparr>" example_config None]
  by (simp add: get_current_playing_def world_no_is_playing_def example_world_def)

subsection \<open>The .env file\<close>

lemma readlines_Nil_iff: "readlines s = [] \<longleftrightarrow> s = []"
  by (cases s) (auto split: list.splits)

lemma concat_readlines: "concat (readlines s) = s"
  by (induction s) (auto split: list.splits)

lemma readlines_line_append:
  "newline \<notin> set body \<Longrightarrow> readlines (body @ newline # rest) = (body @ [newline]) # readlines rest"
  by (induction body) auto

lemma whole_lineE:
  assumes "whole_line l"
  obtains body where "l = body @ [newline]" "newline \<notin> set body"
  using assms unfolding whole_line_def by (metis append_butlast_last_id)

lemma readlines_concat:
  "\<forall>l \<in> set ls. whole_line l \<Longrightarrow> readlines (concat ls) = ls"
proof (induction ls)
  case Nil
  then show ?case by simp
next
  case (Cons l ls)
  then obtain body where l: "l = body @ [newline]" "newline \<notin> set body"
    by (auto elim: whole_lineE)
  with Cons show ?case
    by (simp add: readlines_line_append)
qed

lemma readlines_whole:
  "s = [] \<or> last s = newline \<Longrightarrow> \<forall>l \<in> set (readlines s). whole_line l"
proof (induction s)
  case Nil
  then show ?case by simp
next
  case (Cons c cs)
  show ?case
  proof (cases "c = newline")
    case True
    have "cs = [] \<or> last cs = newline" using Cons.prems by (auto split: if_splits)
    with Cons.IH True show ?thesis by (simp add: whole_line_def)
  next
    case False
    with Cons.prems have ne: "cs \<noteq> []" and "last cs = newline" by (auto split: if_splits)
    with Cons.IH have all: "\<forall>l \<in> set (readlines cs). whole_line l" by simp
    from ne obtain l ls where rl: "readlines cs = l # ls"
      by (cases "readlines cs") (auto simp: readlines_Nil_iff)
    with all have "whole_line l" by simp
    with False have "whole_line (c # l)" by (auto simp: whole_line_def)
    with all rl False show ?thesis by simp
  qed
qed

lemma patch_lines_Some:
  "patch_lines key new ls = Some ls' \<Longrightarrow> new \<in> set ls' \<and> set ls' \<subseteq> insert new (set ls)"
  by (induction ls arbitrary: ls') (auto split: if_splits)


text \<open>
  A last line without a newline, in a file with no line for the key: the appended line
  is glued to it, and the file read back has no line \<open>key=value\<close>.
\<close>

lemma update_env_file_unterminated_example:
  "update_env_file example_world (Some ''A=1'') ''K'' ''v''
     = (True, Some (''A=1K=v'' @ [newline]), [WriteEnv (''A=1K=v'' @ [newline])])
   \<and> \<not> env_has (Some (''A=1K=v'' @ [newline])) ''K'' ''v''"
  by (simp add: update_env_file_def example_world_def os_environ_set_def startswith_def
      env_has_def newline_def Let_def)

lemma update_env_file_unwritten:
  "fs = None \<or> \<not> env_open_ok w \<Longrightarrow> update_env_file w fs key v = (False, fs, [])"
  by (auto simp: update_env_file_def Let_def split: option.splits)

lemma text_lines_Cons:
  "text_lines (l # ls) =
     (if ls = [] then l \<noteq> [] \<and> newline \<notin> set (butlast l) else whole_line l \<and> text_lines ls)"
  by (auto simp: text_lines_def)

lemma text_lines_readlines: "text_lines (readlines s)"
proof (induction s)
  case Nil
  then show ?case by (simp add: text_lines_def)
next
  case (Cons c cs)
  show ?case
  proof (cases "readlines cs")
    case Nil
    then show ?thesis by (simp add: text_lines_Cons)
  next
    case (Cons l ls)
    with Cons.IH show ?thesis
      by (auto simp: text_lines_Cons whole_line_def split: if_splits)
  qed
qed

lemma readlines_one_line:
  "l \<noteq> [] \<Longrightarrow> newline \<notin> set (butlast l) \<Longrightarrow> readlines l = [l]"
proof (induction l)
  case Nil
  then show ?case by simp
next
  case (Cons c cs)
  then show ?case by (cases cs) (auto split: if_splits)
qed

lemma readlines_concat_text_lines:
  "text_lines ls \<Longrightarrow> readlines (concat ls) = ls"
proof (induction ls)
  case Nil
  then show ?case by simp
next
  case (Cons l ls)
  show ?case
  proof (cases "ls = []")
    case True
    with Cons.prems show ?thesis
      by (simp add: text_lines_Cons readlines_one_line)
  next
    case False
    with Cons.prems have whole: "whole_line l" and rest: "text_lines ls"
      by (simp_all add: text_lines_Cons)
    from whole obtain body where l: "l = body @ [newline]" "newline \<notin> set body"
      by (rule whole_lineE)
    with Cons.IH [OF rest] show ?thesis
      by (simp add: readlines_line_append)
  qed
qed

lemma patch_lines_text_lines:
  "patch_lines key new ls = Some ls' \<Longrightarrow> text_lines ls \<Longrightarrow> whole_line new \<Longrightarrow> text_lines ls'"
proof (induction ls arbitrary: ls')
  case Nil
  then show ?case by simp
next
  case (Cons line rest)
  show ?case
  proof (cases "startswith line (key @ ''='')")
    case True
    with Cons.prems show ?thesis
      by (auto simp: text_lines_Cons whole_line_def split: if_splits)
  next
    case False
    with Cons.prems(1) obtain r where r: "patch_lines key new rest = Some r" "ls' = line # r"
      by auto
    have "rest \<noteq> []" using r(1) by auto
    moreover have "r \<noteq> []" using patch_lines_Some [OF r(1)] by auto
    ultimately have "rest \<noteq> []" "r \<noteq> []" by simp_all
    with Cons.prems(2) have "whole_line line" "text_lines rest"
      by (simp_all add: text_lines_Cons)
    with Cons.IH [OF r(1) _ Cons.prems(3)] r \<open>r \<noteq> []\<close> show ?thesis
      by (simp add: text_lines_Cons)
  qed
qed

lemma text_lines_append_line:
  "\<forall>l \<in> set ls. whole_line l \<Longrightarrow> whole_line new \<Longrightarrow> text_lines (ls @ [new])"
  by (simp add: text_lines_def whole_line_def)

lemma patch_lines_None_iff:
  "patch_lines key new ls = None \<longleftrightarrow> \<not> list_ex (\<lambda>line. startswith line (key @ ''='')) ls"
  by (induction ls) auto

lemma update_env_file_written:
  assumes ok: "env_open_ok w"
      and place: "has_key_line content key \<or> content = [] \<or> last content = newline"
      and key: "newline \<notin> set key" "newline \<noteq> CHR ''=''"
      and v: "newline \<notin> set v"
  shows "\<exists>flag content'. update_env_file w (Some content) key v = (flag, Some content', [WriteEnv content'])
           \<and> (key @ ''='' @ v @ [newline]) \<in> set (readlines content')"
proof -
  let ?new = "key @ ''='' @ v @ [newline]"
  define lines' where "lines' =
    (case patch_lines key ?new (readlines content) of Some ls \<Rightarrow> ls | None \<Rightarrow> readlines content @ [?new])"
  have new: "whole_line ?new"
    using key v by (simp add: whole_line_def butlast_append)
  have mem: "?new \<in> set lines'"
    unfolding lines'_def by (auto split: option.splits dest: patch_lines_Some)
  have "text_lines lines'"
  proof (cases "patch_lines key ?new (readlines content)")
    case (Some ls)
    from patch_lines_text_lines [OF Some text_lines_readlines new] Some show ?thesis
      by (simp add: lines'_def)
  next
    case None
    then have "\<not> has_key_line content key"
      by (simp add: patch_lines_None_iff has_key_line_def)
    with place have "content = [] \<or> last content = newline" by simp
    then have "\<forall>l \<in> set (readlines content). whole_line l" by (rule readlines_whole)
    from text_lines_append_line [OF this new] None show ?thesis
      by (simp add: lines'_def)
  qed
  then have "readlines (concat lines') = lines'" by (rule readlines_concat_text_lines)
  with mem have "?new \<in> set (readlines (concat lines'))" by simp
  moreover have "\<exists>flag. update_env_file w (Some content) key v
      = (flag, Some (concat lines'), [WriteEnv (concat lines')])"
    using ok unfolding update_env_file_def lines'_def
    by (auto simp: Let_def split: sum.splits option.splits)
  ultimately show ?thesis by blast
qed

subsection \<open>refresh_access_token\<close>

lemma rotate_refresh_token_same:
  "dict_get f = None \<or> f = Val (SPOTIFY_REFRESH_TOKEN g)
   \<Longrightarrow> rotate_refresh_token w g (dict_get f) = (g, [])"
  by (auto simp: rotate_refresh_token_def dict_get_def split: option.splits)

lemma rotate_refresh_token_memory:
  "tok \<noteq> [] \<Longrightarrow> tok \<noteq> SPOTIFY_REFRESH_TOKEN g \<Longrightarrow> rotate_refresh_token w g (Some tok) = (g', ev)
   \<Longrightarrow> SPOTIFY_REFRESH_TOKEN g' = tok"
  by (auto simp: rotate_refresh_token_def split: prod.splits)

lemma refresh_access_token_200:
  assumes "token_response w = Response 200 (Some data)"
      and "rotate_refresh_token w g (dict_get (tj_refresh_token data)) = (g', ev)"
  shows "refresh_access_token w g =
           (case expiry_after (utcnow_refresh w) (dict_get_default (tj_expires_in data) 3600) of
              Inl e \<Rightarrow> None
            | Inr t \<Rightarrow> Some \<lparr>td_access_token = dict_get (tj_access_token data), td_expires_at = t\<rparr>,
            g', TokenRequest (SPOTIFY_REFRESH_TOKEN g) # ev)"
  using assms
  by (simp add: refresh_access_token_def refresh_access_token_body_def Let_def split: sum.splits)

lemma refresh_access_token_not_200:
  assumes "token_response w = ConnectionError \<or> token_response w = Response c body \<and> c \<noteq> 200"
  shows "refresh_access_token w g = (None, g, [TokenRequest (SPOTIFY_REFRESH_TOKEN g)])"
  using assms
  by (auto simp: refresh_access_token_def refresh_access_token_body_def Let_def split: option.splits)


lemma write_env_only_on_rotation:
  assumes "WriteEnv c \<in> set (snd (snd (refresh_access_token w g)))"
  shows "\<exists>d tok. token_response w = Response 200 (Some d) \<and> tj_refresh_token d = Val tok
           \<and> tok \<noteq> [] \<and> tok \<noteq> SPOTIFY_REFRESH_TOKEN g"
proof (cases "token_response w")
  case ConnectionError
  with assms show ?thesis
    using refresh_access_token_not_200 [of w _ _ g] by simp
next
  case (Response code body)
  show ?thesis
  proof (cases "code = 200")
    case False
    with Response assms show ?thesis
      using refresh_access_token_not_200 [of w code body g] by simp
  next
    case True
    show ?thesis
    proof (cases body)
      case None
      with True Response assms show ?thesis
        by (simp add: refresh_access_token_def refresh_access_token_body_def)
    next
      case (Some d)
      obtain g' ev where rot: "rotate_refresh_token w g (dict_get (tj_refresh_token d)) = (g', ev)"
        by (cases "rotate_refresh_token w g (dict_get (tj_refresh_token d))")
      with Some True Response assms have "WriteEnv c \<in> set ev"
        using refresh_access_token_200 [of w d g g' ev] by simp
      with rot have "\<exists>tok. tj_refresh_token d = Val tok \<and> tok \<noteq> [] \<and> tok \<noteq> SPOTIFY_REFRESH_TOKEN g"
        by (auto simp: rotate_refresh_token_def dict_get_def split: field.splits if_splits)
      with Some True Response show ?thesis by simp
    qed
  qed
qed

text \<open>
  C9. Two calls in a row, each answered 200 with no \<open>refresh_token\<close> or with the
  current one, and with an \<open>expires_in\<close> that gives a \<open>datetime\<close>: each returns a
  credential, the globals stay as they were and the only events are the two token
  requests. The file is written only when the response is a 200 whose \<open>refresh_token\<close>
  is a non-empty string other than the current one.
\<close>

theorem refresh_without_rotation_writes_nothing:
  assumes r1: "token_response w1 = Response 200 (Some d1)"
      and r2: "token_response w2 = Response 200 (Some d2)"
      and s1: "dict_get (tj_refresh_token d1) = None \<or> tj_refresh_token d1 = Val (SPOTIFY_REFRESH_TOKEN g)"
      and s2: "dict_get (tj_refresh_token d2) = None \<or> tj_refresh_token d2 = Val (SPOTIFY_REFRESH_TOKEN g)"
      and e1: "expiry_after (utcnow_refresh w1) (dict_get_default (tj_expires_in d1) 3600) = Inr t1"
      and e2: "expiry_after (utcnow_refresh w2) (dict_get_default (tj_expires_in d2) 3600) = Inr t2"
  shows "refresh_access_token w1 g =
           (Some \<lparr>td_access_token = dict_get (tj_access_token d1), td_expires_at = t1\<rparr>, g,
            [TokenRequest (SPOTIFY_REFRESH_TOKEN g)])
         \<and> refresh_access_token w2 (fst (snd (refresh_access_token w1 g))) =
           (Some \<lparr>td_access_token = dict_get (tj_access_token d2), td_expires_at = t2\<rparr>, g,
            [TokenRequest (SPOTIFY_REFRESH_TOKEN g)])
         \<and> (\<forall>w' g' c. WriteEnv c \<in> set (snd (snd (refresh_access_token w' g')))
               \<longrightarrow> (\<exists>d tok. token_response w' = Response 200 (Some d)
                      \<and> tj_refresh_token d = Val tok \<and> tok \<noteq> []
                      \<and> tok \<noteq> SPOTIFY_REFRESH_TOKEN g'))"
proof -
  have first: "refresh_access_token w1 g =
      (Some \<lparr>td_access_token = dict_get (tj_access_token d1), td_expires_at = t1\<rparr>, g,
       [TokenRequest (SPOTIFY_REFRESH_TOKEN g)])"
    using refresh_access_token_200 [OF r1 rotate_refresh_token_same [OF s1]] e1 by simp
  have second: "refresh_access_token w2 g =
      (Some \<lparr>td_access_token = dict_get (tj_access_token d2), td_expires_at = t2\<rparr>, g,
       [TokenRequest (SPOTIFY_REFRESH_TOKEN g)])"
    using refresh_access_token_200 [OF r2 rotate_refresh_token_same [OF s2]] e2 by simp
  have only: "\<forall>w' g' c. WriteEnv c \<in> set (snd (snd (refresh_access_token w' g')))
               \<longrightarrow> (\<exists>d tok. token_response w' = Response 200 (Some d)
                      \<and> tj_refresh_token d = Val tok \<and> tok \<noteq> []
                      \<and> tok \<noteq> SPOTIFY_REFRESH_TOKEN g')"
    using write_env_only_on_rotation by blast
  from first second only show ?thesis by simp
qed

theorem refresh_without_rotation_writes_nothing_witness:
  "token_response example_world = Response 200 (Some token_ok) \<and>
   refresh_access_token example_world example_globals =
     (Some \<lparr>td_access_token = Some ''at1'', td_expires_at = example_time + 3600000000\<rparr>,
      example_globals, [TokenRequest ''rt0''])"
proof -
  have r: "token_response example_world = Response 200 (Some token_ok)"
    by (simp add: example_world_def)
  have s: "dict_get (tj_refresh_token token_ok) = None
           \<or> tj_refresh_token token_ok = Val (SPOTIFY_REFRESH_TOKEN example_globals)"
    by (simp add: token_ok_def dict_get_def)
  have e: "expiry_after (utcnow_refresh example_world)
             (dict_get_default (tj_expires_in token_ok) 3600) = Inr (example_time + 3600000000)"
    by (simp add: example_world_def token_ok_def example_time_def dict_get_default_def
        expiry_after_def timedelta_seconds_def timedelta_def timedelta_min_def
        timedelta_max_def datetime_add_def datetime_max_def bind_exn_def)
  from refresh_without_rotation_writes_nothing [OF r r s s e e] r show ?thesis
    by (simp add: token_ok_def dict_get_def example_globals_def)
qed

text \<open>
  C2, as amended. A 200 response with a non-empty \<open>refresh_token\<close> other than the
  current one: when the call returns, the in-memory token is the new one. If the
  \<open>.env\<close> file exists, can be opened and either has a line starting with
  \<open>SPOTIFY_REFRESH_TOKEN=\<close> or is empty or ends in a newline (and the token has no
  newline), the file has been rewritten and, read back, has the line
  \<open>SPOTIFY_REFRESH_TOKEN=<new token>\<close>. If the file does not exist or cannot be
  opened, it is left as it was and nothing is written: the new token lives in memory
  only.
\<close>

theorem rotation_in_memory_and_in_writable_env:
  assumes resp: "token_response w = Response 200 (Some data)"
      and new: "tj_refresh_token data = Val tok" "tok \<noteq> []" "tok \<noteq> SPOTIFY_REFRESH_TOKEN g"
      and result: "refresh_access_token w g = (res, g', ev)"
  shows "SPOTIFY_REFRESH_TOKEN g' = tok
         \<and> (env_file g = Some content \<and> env_open_ok w
              \<and> (has_key_line content ''SPOTIFY_REFRESH_TOKEN''
                   \<or> content = [] \<or> last content = newline)
              \<and> newline \<notin> set tok
            \<longrightarrow> env_has (env_file g') ''SPOTIFY_REFRESH_TOKEN'' tok
                \<and> (\<exists>c. env_file g' = Some c \<and> WriteEnv c \<in> set ev))
         \<and> (env_file g = None \<or> \<not> env_open_ok w
            \<longrightarrow> env_file g' = env_file g \<and> \<not> list_ex is_write_env ev)"
proof -
  obtain g1 ev1 where rot: "rotate_refresh_token w g (Some tok) = (g1, ev1)"
    by (cases "rotate_refresh_token w g (Some tok)")
  with resp new(1) result have g': "g' = g1" and ev: "ev = TokenRequest (SPOTIFY_REFRESH_TOKEN g) # ev1"
    using refresh_access_token_200 [of w data g g1 ev1] by (simp_all add: dict_get_def)
  have memory: "SPOTIFY_REFRESH_TOKEN g' = tok"
    using rotate_refresh_token_memory [OF new(2,3) rot] g' by simp
  have written: "env_has (env_file g') ''SPOTIFY_REFRESH_TOKEN'' tok
                 \<and> (\<exists>c. env_file g' = Some c \<and> WriteEnv c \<in> set ev)"
    if env: "env_file g = Some content" "env_open_ok w"
       "has_key_line content ''SPOTIFY_REFRESH_TOKEN'' \<or> content = [] \<or> last content = newline"
       "newline \<notin> set tok"
  proof -
    obtain flag content' where
      upd: "update_env_file w (Some content) ''SPOTIFY_REFRESH_TOKEN'' tok
              = (flag, Some content', [WriteEnv content'])"
      and line: "(''SPOTIFY_REFRESH_TOKEN'' @ ''='' @ tok @ [newline]) \<in> set (readlines content')"
      using update_env_file_written [OF env(2,3) _ _ env(4)]
      by (auto simp: newline_def)
    from rot upd env(1) new(2,3) have "env_file g1 = Some content'" "ev1 = [WriteEnv content']"
      by (auto simp: rotate_refresh_token_def split: if_splits)
    with line g' ev show ?thesis
      by (simp add: env_has_def)
  qed
  have unwritten: "env_file g' = env_file g \<and> \<not> list_ex is_write_env ev"
    if "env_file g = None \<or> \<not> env_open_ok w"
  proof -
    have "update_env_file w (env_file g) ''SPOTIFY_REFRESH_TOKEN'' tok = (False, env_file g, [])"
      using that by (rule update_env_file_unwritten)
    with rot new(2,3) have "env_file g1 = env_file g" "ev1 = []"
      by (auto simp: rotate_refresh_token_def)
    with g' ev show ?thesis by simp
  qed
  from memory written unwritten show ?thesis by blast
qed

text \<open>
  The claim as stated fails when there is no \<open>.env\<close> file: the call returns a
  credential and the rotated token \<open>rt1\<close>, and no durable store holds it.
\<close>

theorem rotation_lost_without_env_file_counterexample:
  "tj_refresh_token token_rotated = Val ''rt1'' \<and>
   refresh_access_token world_rotated (example_globals\<lparr>env_file := None\<rparr>) =
     (Some \<lparr>td_access_token = Some ''at1'', td_expires_at = example_time + 3600000000\<rparr>,
      \<lparr>SPOTIFY_REFRESH_TOKEN = ''rt1'', env_file = None\<rparr>, [TokenRequest ''rt0'']) \<and>
   \<not> env_has None ''SPOTIFY_REFRESH_TOKEN'' ''rt1''"
  by (simp add: world_rotated_def example_world_def token_rotated_def token_ok_def
      example_globals_def example_time_def refresh_access_token_def
      refresh_access_token_body_def rotate_refresh_token_def update_env_file_def
      dict_get_def dict_get_default_def expiry_after_def timedelta_seconds_def timedelta_def
      timedelta_min_def timedelta_max_def datetime_add_def datetime_max_def bind_exn_def
      env_has_def)


lemma refresh_rotated_example:
  "refresh_access_token world_rotated example_globals =
     (Some \<lparr>td_access_token = Some ''at1'', td_expires_at = example_time + 3600000000\<rparr>,
      \<lparr>SPOTIFY_REFRESH_TOKEN = ''rt1'',
       env_file = Some (''SPOTIFY_CLIENT_ID=abc'' @ [newline]
                        @ ''SPOTIFY_REFRESH_TOKEN=rt1'' @ [newline])\<rparr>,
      [TokenRequest ''rt0'',
       WriteEnv (''SPOTIFY_CLIENT_ID=abc'' @ [newline]
                 @ ''SPOTIFY_REFRESH_TOKEN=rt1'' @ [newline])])"
  by (simp add: world_rotated_def example_world_def token_rotated_def token_ok_def
      example_globals_def example_time_def refresh_access_token_def
      refresh_access_token_body_def rotate_refresh_token_def update_env_file_def
      os_environ_set_def startswith_def newline_def Let_def
      dict_get_def dict_get_default_def expiry_after_def timedelta_seconds_def timedelta_def
      timedelta_min_def timedelta_max_def datetime_add_def datetime_max_def bind_exn_def)

lemma refresh_rotated_unterminated_example:
  "refresh_access_token world_rotated (example_globals\<lparr>env_file := Some ''SPOTIFY_REFRESH_TOKEN=rt0''\<rparr>) =
     (Some \<lparr>td_access_token = Some ''at1'', td_expires_at = example_time + 3600000000\<rparr>,
      \<lparr>SPOTIFY_REFRESH_TOKEN = ''rt1'',
       env_file = Some (''SPOTIFY_REFRESH_TOKEN=rt1'' @ [newline])\<rparr>,
      [TokenRequest ''rt0'', WriteEnv (''SPOTIFY_REFRESH_TOKEN=rt1'' @ [newline])])"
  by (simp add: world_rotated_def example_world_def token_rotated_def token_ok_def
      example_globals_def example_time_def refresh_access_token_def
      refresh_access_token_body_def rotate_refresh_token_def update_env_file_def
      os_environ_set_def startswith_def newline_def Let_def
      dict_get_def dict_get_default_def expiry_after_def timedelta_seconds_def timedelta_def
      timedelta_min_def timedelta_max_def datetime_add_def datetime_max_def bind_exn_def)

text \<open>
  A file that ends in a newline, and a file whose only line is the key's and has no
  newline at its end.
\<close>

theorem rotation_in_memory_and_in_writable_env_witness:
  "token_response world_rotated = Response 200 (Some token_rotated) \<and>
   tj_refresh_token token_rotated = Val ''rt1'' \<and>
   SPOTIFY_REFRESH_TOKEN (fst (snd (refresh_access_token world_rotated example_globals))) = ''rt1'' \<and>
   env_has (env_file (fst (snd (refresh_access_token world_rotated example_globals))))
     ''SPOTIFY_REFRESH_TOKEN'' ''rt1'' \<and>
   has_key_line ''SPOTIFY_REFRESH_TOKEN=rt0'' ''SPOTIFY_REFRESH_TOKEN'' \<and>
   env_has (env_file (fst (snd (refresh_access_token world_rotated
              (example_globals\<lparr>env_file := Some ''SPOTIFY_REFRESH_TOKEN=rt0''\<rparr>)))))
     ''SPOTIFY_REFRESH_TOKEN'' ''rt1''"
proof -
  let ?g = "example_globals\<lparr>env_file := Some ''SPOTIFY_REFRESH_TOKEN=rt0''\<rparr>"
  have r: "token_response world_rotated = Response 200 (Some token_rotated)"
    by (simp add: world_rotated_def example_world_def)
  have n: "tj_refresh_token token_rotated = Val ''rt1''" "''rt1'' \<noteq> []"
    "''rt1'' \<noteq> SPOTIFY_REFRESH_TOKEN example_globals"
    by (simp_all add: token_rotated_def token_ok_def example_globals_def)
  have n': "''rt1'' \<noteq> SPOTIFY_REFRESH_TOKEN ?g"
    by (simp add: example_globals_def)
  have f: "env_file example_globals = Some (''SPOTIFY_CLIENT_ID=abc'' @ [newline]
             @ ''SPOTIFY_REFRESH_TOKEN=rt0'' @ [newline])"
    "env_open_ok world_rotated" "newline \<notin> set ''rt1''"
    by (simp_all add: example_globals_def world_rotated_def example_world_def newline_def)
  have f': "env_file ?g = Some ''SPOTIFY_REFRESH_TOKEN=rt0''"
    by simp
  have k: "has_key_line ''SPOTIFY_REFRESH_TOKEN=rt0'' ''SPOTIFY_REFRESH_TOKEN''"
    by (simp add: has_key_line_def startswith_def newline_def)
  have first: "SPOTIFY_REFRESH_TOKEN (fst (snd (refresh_access_token world_rotated example_globals)))
        = ''rt1'' \<and>
      env_has (env_file (fst (snd (refresh_access_token world_rotated example_globals))))
        ''SPOTIFY_REFRESH_TOKEN'' ''rt1''"
    using rotation_in_memory_and_in_writable_env [OF r n refresh_rotated_example,
        of "''SPOTIFY_CLIENT_ID=abc'' @ [newline] @ ''SPOTIFY_REFRESH_TOKEN=rt0'' @ [newline]"]
      f
    by (simp add: refresh_rotated_example)
  have second: "env_has (env_file (fst (snd (refresh_access_token world_rotated ?g))))
        ''SPOTIFY_REFRESH_TOKEN'' ''rt1''"
    using rotation_in_memory_and_in_writable_env [OF r n(1,2) n' refresh_rotated_unterminated_example,
        of "''SPOTIFY_REFRESH_TOKEN=rt0''"]
      f(2,3) f' k
    by (simp add: refresh_rotated_unterminated_example)
  from r n(1) first k second show ?thesis by simp
qed

subsection \<open>main\<close>

lemma sleep_nonneg: "0 \<le> s \<Longrightarrow> sleep s = Inr [Sleep s]"
  by (simp add: sleep_def)

lemma update_env_file_events:
  "update_env_file w fs key v = (flag, fs', ev) \<Longrightarrow> ev = [] \<or> (\<exists>c. ev = [WriteEnv c])"
  by (auto simp: update_env_file_def Let_def split: option.splits if_splits sum.splits)

lemma rotate_refresh_token_events:
  "rotate_refresh_token w g new = (g', ev) \<Longrightarrow> ev = [] \<or> (\<exists>c. ev = [WriteEnv c])"
  by (auto simp: rotate_refresh_token_def split: option.splits if_splits prod.splits
      dest: update_env_file_events)

lemma refresh_access_token_events:
  assumes "refresh_access_token w g = (res, g', ev)"
  shows "\<exists>rest. ev = TokenRequest (SPOTIFY_REFRESH_TOKEN g) # rest
           \<and> (rest = [] \<or> (\<exists>c. rest = [WriteEnv c]))"
proof (cases "\<exists>d. token_response w = Response 200 (Some d)")
  case True
  then obtain d where d: "token_response w = Response 200 (Some d)" by blast
  obtain g1 ev1 where rot: "rotate_refresh_token w g (dict_get (tj_refresh_token d)) = (g1, ev1)"
    by (cases "rotate_refresh_token w g (dict_get (tj_refresh_token d))")
  from refresh_access_token_200 [OF d rot] assms
  have "ev = TokenRequest (SPOTIFY_REFRESH_TOKEN g) # ev1" by simp
  with rotate_refresh_token_events [OF rot] show ?thesis by simp
next
  case False
  with assms show ?thesis
    by (auto simp: refresh_access_token_def refresh_access_token_body_def Let_def
        split: http_result.splits option.splits if_splits)
qed

lemma refresh_access_token_no_sleep:
  "refresh_access_token w g = (res, g', ev) \<Longrightarrow>
     \<not> list_ex is_sleep ev \<and> \<not> list_ex is_status_request ev"
  by (drule refresh_access_token_events) auto

lemma get_current_playing_events: "snd (get_current_playing cfg w tok) = [PlaybackRequest tok]"
  by (simp add: get_current_playing_def split: sum.splits)

lemma get_current_playing_401:
  "playing_response w = Response 401 body \<Longrightarrow>
     get_current_playing cfg w tok = (TOKEN_EXPIRED, [PlaybackRequest tok])"
  by (simp add: get_current_playing_def get_current_playing_body_def)

lemma set_github_status_events:
  "snd (set_github_status w m e) = [StatusRequest m (if m = None then None else e)]"
  by (auto simp: set_github_status_def Let_def split: option.splits http_result.splits)

lemma status_of_None: "status_of r = (None, e) \<Longrightarrow> e = None"
  by (cases r) (auto simp: status_of_def)

lemma publish_changes_unchanged:
  "m = last_status st \<Longrightarrow> publish_changes cfg w st m e = (st, [])"
  by (simp add: publish_changes_def)

lemma publish_changes_skip:
  "\<not> CLEAR_STATUS_WHEN_IDLE cfg \<Longrightarrow> publish_changes cfg w st None e = (st, [])"
  by (simp add: publish_changes_def)

lemma publish_changes_attempt:
  assumes "m \<noteq> last_status st" and "m \<noteq> None \<or> CLEAR_STATUS_WHEN_IDLE cfg"
  shows "publish_changes cfg w st m e =
           (if fst (set_github_status w m e) then st\<lparr>last_status := m\<rparr> else st,
            [StatusRequest m (if m = None then None else e)])"
  using assms set_github_status_events [of w m e]
  by (cases "set_github_status w m e") (auto simp: publish_changes_def)

lemma poll_phase_expired:
  "fst (get_current_playing cfg w (access_token st)) = TOKEN_EXPIRED \<Longrightarrow>
     poll_phase cfg w st ev =
       Continue (st\<lparr>access_token := None\<rparr>) (ev @ [PlaybackRequest (access_token st)])"
  using get_current_playing_events [of cfg w "access_token st"]
  by (cases "get_current_playing cfg w (access_token st)") (simp add: poll_phase_def)

lemma poll_phase_polled:
  assumes "fst (get_current_playing cfg w (access_token st)) = r" and "r \<noteq> TOKEN_EXPIRED"
      and "status_of r = (m, e)" and "publish_changes cfg w st m e = (st', ev2)"
      and "0 \<le> POLL_INTERVAL cfg"
  shows "poll_phase cfg w st ev =
           Continue st' (ev @ [PlaybackRequest (access_token st)] @ ev2 @ [Sleep (POLL_INTERVAL cfg)])"
  using assms get_current_playing_events [of cfg w "access_token st"]
  by (cases "get_current_playing cfg w (access_token st)")
     (simp add: poll_phase_def sleep_nonneg)

lemma poll_phase_events:
  "\<exists>rest. events_of (poll_phase cfg w st ev) = ev @ PlaybackRequest (access_token st) # rest"
  using get_current_playing_events [of cfg w "access_token st"]
  by (cases "get_current_playing cfg w (access_token st)")
     (auto simp: poll_phase_def handle_exception_def split: prod.splits sum.splits)

lemma token_phase_Inr:
  assumes "token_phase cfg w st = Inr (st1, ev)"
  shows "last_status st1 = last_status st \<and> \<not> list_ex is_sleep ev \<and> \<not> list_ex is_status_request ev"
  using assms
  by (auto simp: token_phase_def Let_def
      split: sum.splits bool.splits prod.splits option.splits if_splits
      dest: refresh_access_token_no_sleep)

lemma token_phase_refreshed:
  assumes "needs_refresh w st = Inr True" and "refresh_access_token w (globs st) = (Some td, g', ev)"
  shows "token_phase cfg w st =
           Inr (st\<lparr>globs := g', access_token := td_access_token td,
                   expires_at_token := td_expires_at td, consecutive_failures := 0\<rparr>, ev)"
  using assms by (simp add: token_phase_def)

lemma token_phase_failed:
  assumes "needs_refresh w st = Inr True" and "refresh_access_token w (globs st) = (None, g', ev)"
      and "0 \<le> POLL_INTERVAL cfg"
  shows "token_phase cfg w st =
           Inl (if max_failures \<le> consecutive_failures st + 1 then Exit 1 ev
                else Continue (st\<lparr>globs := g', consecutive_failures := consecutive_failures st + 1\<rparr>)
                       (ev @ [Sleep (min (POLL_INTERVAL cfg * real (consecutive_failures st + 1)) 300)]))"
proof -
  have "0 \<le> min (POLL_INTERVAL cfg * real (consecutive_failures st + 1)) 300"
    using assms(3) by simp
  then show ?thesis
    using assms(1,2) by (simp add: token_phase_def Let_def sleep_nonneg)
qed

lemma needs_refresh_no_token:
  "\<not> truthy_str (access_token st) \<Longrightarrow> needs_refresh w st = Inr True"
  by (simp add: needs_refresh_def)

lemma needs_refresh_later:
  assumes "needs_refresh w st = Inr True" and "utcnow_main w \<le> utcnow_main w2"
      and "access_token st' = access_token st" and "expires_at_token st' = expires_at_token st"
  shows "needs_refresh w2 st' = Inr True"
  using assms by (auto simp: needs_refresh_def bind_exn_def split: if_splits sum.splits)


lemma iteration_starts_with_token_request:
  assumes need: "needs_refresh w st = Inr True"
  shows "\<exists>rest. events_of (iteration cfg w st) = TokenRequest (SPOTIFY_REFRESH_TOKEN (globs st)) # rest"
proof -
  obtain res g' ev where r: "refresh_access_token w (globs st) = (res, g', ev)"
    by (cases "refresh_access_token w (globs st)")
  from refresh_access_token_events [OF r] obtain more where
    ev: "ev = TokenRequest (SPOTIFY_REFRESH_TOKEN (globs st)) # more" by blast
  show ?thesis
  proof (cases res)
    case (Some td)
    from token_phase_refreshed [OF need, of td g' ev cfg] r Some
      poll_phase_events [of cfg w
        "st\<lparr>globs := g', access_token := td_access_token td,
            expires_at_token := td_expires_at td, consecutive_failures := 0\<rparr>" ev]
      ev
    show ?thesis by (auto simp: iteration_def)
  next
    case None
    with r need ev show ?thesis
      by (auto simp: iteration_def token_phase_def Let_def handle_exception_def
          split: sum.splits)
  qed
qed

text \<open>
  C8. A pass that reaches the poll and gets a 401: the pass ends at once with
  \<open>access_token = None\<close>, its only event after the token phase is the playback
  request (no sleep, no status request), and \<open>last_status\<close> is untouched. The next
  pass needs a refresh whatever the clock says, starts with the token request, and,
  when the refresh gives a credential, polls with the new access token in that same
  pass.
\<close>

theorem token_expired_forces_refresh_without_sleep:
  assumes reach: "token_phase cfg w st = Inr (st1, ev)"
      and unauth: "playing_response w = Response 401 body"
  shows "iteration cfg w st =
           Continue (st1\<lparr>access_token := None\<rparr>) (ev @ [PlaybackRequest (access_token st1)])
         \<and> \<not> list_ex is_sleep (events_of (iteration cfg w st))
         \<and> \<not> list_ex is_status_request (events_of (iteration cfg w st))
         \<and> last_status st1 = last_status st
         \<and> (\<forall>w2. needs_refresh w2 (st1\<lparr>access_token := None\<rparr>) = Inr True)
         \<and> (\<forall>w2. \<exists>rest. events_of (iteration cfg w2 (st1\<lparr>access_token := None\<rparr>))
                          = TokenRequest (SPOTIFY_REFRESH_TOKEN (globs st1)) # rest)
         \<and> (\<forall>w2 td g' ev2. refresh_access_token w2 (globs st1) = (Some td, g', ev2)
               \<longrightarrow> (\<exists>rest. events_of (iteration cfg w2 (st1\<lparr>access_token := None\<rparr>))
                            = ev2 @ PlaybackRequest (td_access_token td) # rest))"
proof -
  let ?st' = "st1\<lparr>access_token := None\<rparr>"
  have pass: "iteration cfg w st = Continue ?st' (ev @ [PlaybackRequest (access_token st1)])"
    using reach get_current_playing_401 [OF unauth, of cfg "access_token st1"]
    by (simp add: iteration_def poll_phase_expired)
  have quiet: "\<not> list_ex is_sleep ev" "\<not> list_ex is_status_request ev"
    and kept: "last_status st1 = last_status st"
    using token_phase_Inr [OF reach] by simp_all
  have need: "needs_refresh w2 ?st' = Inr True" for w2
    by (simp add: needs_refresh_no_token truthy_str_def)
  have resumed: "\<exists>rest. events_of (iteration cfg w2 ?st') = ev2 @ PlaybackRequest (td_access_token td) # rest"
    if "refresh_access_token w2 (globs st1) = (Some td, g', ev2)" for w2 td g' ev2
    using token_phase_refreshed [OF need, of w2 td g' ev2 cfg] that
      poll_phase_events [of cfg w2
        "?st'\<lparr>globs := g', access_token := td_access_token td,
              expires_at_token := td_expires_at td, consecutive_failures := 0\<rparr>" ev2]
    by (simp add: iteration_def)
  have first: "\<exists>rest. events_of (iteration cfg w2 ?st')
                 = TokenRequest (SPOTIFY_REFRESH_TOKEN (globs st1)) # rest" for w2
  proof -
    obtain res g' ev2 where r: "refresh_access_token w2 (globs st1) = (res, g', ev2)"
      by (cases "refresh_access_token w2 (globs st1)")
    from refresh_access_token_events [OF r] obtain tl where
      ev2: "ev2 = TokenRequest (SPOTIFY_REFRESH_TOKEN (globs st1)) # tl" by blast
    show ?thesis
    proof (cases res)
      case (Some td)
      with r resumed [of w2 td g' ev2] ev2 show ?thesis by auto
    next
      case None
      with r need [of w2] ev2 show ?thesis
        by (auto simp: iteration_def token_phase_def Let_def handle_exception_def
            split: sum.splits)
    qed
  qed
  from pass quiet kept need first resumed show ?thesis
    by simp
qed


theorem token_expired_forces_refresh_without_sleep_witness:
  "token_phase example_config world_unauthorized state_playing = Inr (state_playing, []) \<and>
   playing_response world_unauthorized = Response 401 None \<and>
   iteration example_config world_unauthorized state_playing =
     Continue (state_playing\<lparr>access_token := None\<rparr>) [PlaybackRequest (Some ''at1'')] \<and>
   (\<exists>rest. events_of (iteration example_config example_world (state_playing\<lparr>access_token := None\<rparr>))
            = TokenRequest ''rt0'' # rest)"
proof -
  have reach: "token_phase example_config world_unauthorized state_playing = Inr (state_playing, [])"
    by (simp add: token_phase_def needs_refresh_def state_playing_def world_unauthorized_def
        example_world_def example_time_def truthy_str_def datetime_add_def datetime_max_def
        bind_exn_def)
  have unauth: "playing_response world_unauthorized = Response 401 None"
    by (simp add: world_unauthorized_def example_world_def)
  from token_expired_forces_refresh_without_sleep [OF reach unauth] reach unauth show ?thesis
    by (simp add: state_playing_def example_globals_def)
qed

lemma iteration_refresh_failed:
  assumes "needs_refresh w st = Inr True" and "refresh_access_token w (globs st) = (None, g', ev)"
      and "0 \<le> POLL_INTERVAL cfg"
  shows "iteration cfg w st =
           (if max_failures \<le> consecutive_failures st + 1 then Exit 1 ev
            else Continue (st\<lparr>globs := g', consecutive_failures := consecutive_failures st + 1\<rparr>)
                   (ev @ [Sleep (min (POLL_INTERVAL cfg * real (consecutive_failures st + 1)) 300)]))"
  using token_phase_failed [OF assms] by (simp add: iteration_def)

lemma failures_until_exit:
  assumes poll: "0 \<le> POLL_INTERVAL cfg"
      and fails: "\<forall>w \<in> set ws. \<forall>g. fst (refresh_access_token w g) = None"
      and token: "\<not> truthy_str (access_token st)"
      and count: "consecutive_failures st + length ws = max_failures"
      and some: "ws \<noteq> []"
  shows "(\<exists>ev. last (main_loop cfg ws st) = Exit 1 ev)
         \<and> length (main_loop cfg ws st) = length ws
         \<and> filter is_sleep (trace (main_loop cfg ws st)) =
             map (\<lambda>k. Sleep (min (POLL_INTERVAL cfg * real k) 300))
                 [consecutive_failures st + 1 ..< max_failures]"
  using fails token count some
proof (induction ws arbitrary: st)
  case Nil
  then show ?case by simp
next
  case (Cons w ws)
  have "fst (refresh_access_token w (globs st)) = None"
    using Cons.prems(1) by simp
  then obtain g' ev where r: "refresh_access_token w (globs st) = (None, g', ev)"
    by (cases "refresh_access_token w (globs st)") simp
  have quiet: "filter is_sleep ev = []"
    using refresh_access_token_no_sleep [OF r] by (simp add: filter_empty_conv list_ex_iff)
  note step = iteration_refresh_failed [OF needs_refresh_no_token [OF Cons.prems(2)] r poll]
  show ?case
  proof (cases "ws = []")
    case True
    with Cons.prems(3) have "max_failures \<le> consecutive_failures st + 1" by simp
    with step True Cons.prems(3) quiet show ?thesis
      by (simp add: trace_def)
  next
    case False
    let ?st' = "st\<lparr>globs := g', consecutive_failures := consecutive_failures st + 1\<rparr>"
    let ?s = "Sleep (min (POLL_INTERVAL cfg * real (consecutive_failures st + 1)) 300)"
    from False Cons.prems(3) have less: "consecutive_failures st + 1 < max_failures"
      by (cases ws) auto
    with step have it: "iteration cfg w st = Continue ?st' (ev @ [?s])" by simp
    have ih: "(\<exists>ev. last (main_loop cfg ws ?st') = Exit 1 ev)
         \<and> length (main_loop cfg ws ?st') = length ws
         \<and> filter is_sleep (trace (main_loop cfg ws ?st')) =
             map (\<lambda>k. Sleep (min (POLL_INTERVAL cfg * real k) 300))
                 [consecutive_failures ?st' + 1 ..< max_failures]"
      using Cons.prems False by (intro Cons.IH) auto
    then have ne: "main_loop cfg ws ?st' \<noteq> []" using False by auto
    have upt: "[consecutive_failures st + 1 ..< max_failures]
               = (consecutive_failures st + 1) # [consecutive_failures ?st' + 1 ..< max_failures]"
      using less by (simp add: upt_conv_Cons)
    from it ih ne quiet show ?thesis
      unfolding upt by (simp add: trace_def)
  qed
qed


text \<open>
  C7. A pass whose refresh fails increments \<open>consecutive_failures\<close>; if the counter
  has reached \<open>max_failures = 5\<close> the process exits with code 1, otherwise the pass
  sleeps \<open>min(POLL_INTERVAL * consecutive_failures, 300)\<close> seconds (the counter as
  incremented) and the next pass refreshes again, as long as the clock does not run
  backwards. A refresh that succeeds sets the counter to 0. From a counter of 0, five
  passes with a failing refresh end in exit code 1 after four sleeps.
\<close>

theorem refresh_failure_backoff_and_exit:
  assumes poll: "0 \<le> POLL_INTERVAL cfg"
      and need: "needs_refresh w st = Inr True"
      and res: "refresh_access_token w (globs st) = (res, g', ev)"
  shows "(res = None \<longrightarrow>
            iteration cfg w st =
              (if max_failures \<le> consecutive_failures st + 1 then Exit 1 ev
               else Continue (st\<lparr>globs := g', consecutive_failures := consecutive_failures st + 1\<rparr>)
                      (ev @ [Sleep (min (POLL_INTERVAL cfg * real (consecutive_failures st + 1)) 300)]))
            \<and> (\<forall>w2. utcnow_main w \<le> utcnow_main w2 \<longrightarrow>
                  needs_refresh w2
                    (st\<lparr>globs := g', consecutive_failures := consecutive_failures st + 1\<rparr>) = Inr True))
         \<and> (\<forall>td. res = Some td \<longrightarrow>
               token_phase cfg w st =
                 Inr (st\<lparr>globs := g', access_token := td_access_token td,
                         expires_at_token := td_expires_at td, consecutive_failures := 0\<rparr>, ev))
         \<and> max_failures = 5
         \<and> (\<forall>ws st0. length ws = 5 \<and> (\<forall>w \<in> set ws. \<forall>g. fst (refresh_access_token w g) = None)
                \<and> \<not> truthy_str (access_token st0) \<and> consecutive_failures st0 = 0
              \<longrightarrow> (\<exists>ev. last (main_loop cfg ws st0) = Exit 1 ev)
                  \<and> length (main_loop cfg ws st0) = 5
                  \<and> filter is_sleep (trace (main_loop cfg ws st0)) =
                      [Sleep (min (POLL_INTERVAL cfg * 1) 300), Sleep (min (POLL_INTERVAL cfg * 2) 300),
                       Sleep (min (POLL_INTERVAL cfg * 3) 300), Sleep (min (POLL_INTERVAL cfg * 4) 300)])"
proof -
  have failed: "iteration cfg w st =
              (if max_failures \<le> consecutive_failures st + 1 then Exit 1 ev
               else Continue (st\<lparr>globs := g', consecutive_failures := consecutive_failures st + 1\<rparr>)
                      (ev @ [Sleep (min (POLL_INTERVAL cfg * real (consecutive_failures st + 1)) 300)]))"
    if "res = None"
    using iteration_refresh_failed [OF need _ poll] res that by simp
  have stays: "needs_refresh w2
      (st\<lparr>globs := g', consecutive_failures := consecutive_failures st + 1\<rparr>) = Inr True"
    if "utcnow_main w \<le> utcnow_main w2" for w2
    using need that by (rule needs_refresh_later) simp_all
  have reset: "token_phase cfg w st =
                 Inr (st\<lparr>globs := g', access_token := td_access_token td,
                         expires_at_token := td_expires_at td, consecutive_failures := 0\<rparr>, ev)"
    if "res = Some td" for td
    using token_phase_refreshed [OF need] res that by simp
  have five: "(\<exists>ev. last (main_loop cfg ws st0) = Exit 1 ev)
                  \<and> length (main_loop cfg ws st0) = 5
                  \<and> filter is_sleep (trace (main_loop cfg ws st0)) =
                      [Sleep (min (POLL_INTERVAL cfg * 1) 300), Sleep (min (POLL_INTERVAL cfg * 2) 300),
                       Sleep (min (POLL_INTERVAL cfg * 3) 300), Sleep (min (POLL_INTERVAL cfg * 4) 300)]"
    if "length ws = 5" "\<forall>w \<in> set ws. \<forall>g. fst (refresh_access_token w g) = None"
       "\<not> truthy_str (access_token st0)" "consecutive_failures st0 = 0" for ws st0
  proof -
    have "ws \<noteq> []" "consecutive_failures st0 + length ws = max_failures"
      using that by (auto simp: max_failures_def)
    from failures_until_exit [OF poll that(2,3) this(2,1)] that(1,4)
    have "(\<exists>ev. last (main_loop cfg ws st0) = Exit 1 ev)
         \<and> length (main_loop cfg ws st0) = 5
         \<and> filter is_sleep (trace (main_loop cfg ws st0)) =
             map (\<lambda>k. Sleep (min (POLL_INTERVAL cfg * real k) 300)) [1 ..< 5]"
      by (simp add: max_failures_def)
    moreover have "[1 ..< 5] = [1, 2, 3, 4::nat]"
      by (simp add: upt_rec)
    ultimately show ?thesis by simp
  qed
  from failed stays reset five show ?thesis
    by (simp add: max_failures_def)
qed


lemma refresh_token_down:
  "refresh_access_token world_token_down g = (None, g, [TokenRequest (SPOTIFY_REFRESH_TOKEN g)])"
  using refresh_access_token_not_200 [of world_token_down]
  by (simp add: world_token_down_def)

theorem refresh_failure_backoff_and_exit_witness:
  "needs_refresh world_token_down (initial_state example_time example_globals) = Inr True \<and>
   iteration example_config world_token_down (initial_state example_time example_globals) =
     Continue ((initial_state example_time example_globals)\<lparr>consecutive_failures := 1\<rparr>)
       [TokenRequest ''rt0'', Sleep 15] \<and>
   (\<exists>ev. last (main_loop example_config (replicate 5 world_token_down)
                 (initial_state example_time example_globals)) = Exit 1 ev) \<and>
   filter is_sleep (trace (main_loop example_config (replicate 5 world_token_down)
                             (initial_state example_time example_globals))) =
     [Sleep 15, Sleep 30, Sleep 45, Sleep 60]"
proof -
  let ?st = "initial_state example_time example_globals"
  have poll: "0 \<le> POLL_INTERVAL example_config"
    by (simp add: example_config_def)
  have need: "needs_refresh world_token_down ?st = Inr True"
    by (simp add: needs_refresh_def initial_state_def truthy_str_def)
  have run: "length (replicate 5 world_token_down) = 5
      \<and> (\<forall>w \<in> set (replicate 5 world_token_down). \<forall>g. fst (refresh_access_token w g) = None)
      \<and> \<not> truthy_str (access_token ?st) \<and> consecutive_failures ?st = 0"
    by (simp add: refresh_token_down initial_state_def truthy_str_def)
  from refresh_failure_backoff_and_exit [OF poll need refresh_token_down] run need show ?thesis
    by (simp add: example_config_def initial_state_def example_globals_def max_failures_def)
qed

text \<open>
  C1, as amended. A 400 response with \<open>error = invalid_grant\<close> makes
  \<open>refresh_access_token\<close> return \<open>None\<close> with the globals untouched, as any other
  failed refresh does; the pass makes no other call, counts one more failure and either
  exits with code 1 (fifth consecutive failure) or sleeps. The pass is the same as for
  a connection error. After the sleep the next pass refreshes again, starting with the
  token request: always when no access token is held, and, when one is held, provided
  the clock has not been set back since.
\<close>

theorem invalid_grant_counts_as_failed_refresh:
  assumes resp: "token_response w = Response 400 (Some d)"
      and grant: "tj_error d = Val ''invalid_grant''"
      and need: "needs_refresh w st = Inr True"
      and poll: "0 \<le> POLL_INTERVAL cfg"
  shows "refresh_access_token w (globs st) =
           (None, globs st, [TokenRequest (SPOTIFY_REFRESH_TOKEN (globs st))])
         \<and> iteration cfg w st =
             (if max_failures \<le> consecutive_failures st + 1
              then Exit 1 [TokenRequest (SPOTIFY_REFRESH_TOKEN (globs st))]
              else Continue (st\<lparr>consecutive_failures := consecutive_failures st + 1\<rparr>)
                     [TokenRequest (SPOTIFY_REFRESH_TOKEN (globs st)),
                      Sleep (min (POLL_INTERVAL cfg * real (consecutive_failures st + 1)) 300)])
         \<and> iteration cfg w st = iteration cfg (w\<lparr>token_response := ConnectionError\<rparr>) st
         \<and> (\<forall>w2. \<not> truthy_str (access_token st) \<or> utcnow_main w \<le> utcnow_main w2 \<longrightarrow>
               needs_refresh w2 (st\<lparr>consecutive_failures := consecutive_failures st + 1\<rparr>)
                 = Inr True
               \<and> (\<exists>rest. events_of (iteration cfg w2
                            (st\<lparr>consecutive_failures := consecutive_failures st + 1\<rparr>))
                          = TokenRequest (SPOTIFY_REFRESH_TOKEN (globs st)) # rest))"
proof -
  let ?w' = "w\<lparr>token_response := ConnectionError\<rparr>"
  let ?st' = "st\<lparr>consecutive_failures := consecutive_failures st + 1\<rparr>"
  have again: "needs_refresh w2 ?st' = Inr True
      \<and> (\<exists>rest. events_of (iteration cfg w2 ?st')
                 = TokenRequest (SPOTIFY_REFRESH_TOKEN (globs st)) # rest)"
    if "\<not> truthy_str (access_token st) \<or> utcnow_main w \<le> utcnow_main w2" for w2
  proof -
    have n: "needs_refresh w2 ?st' = Inr True"
    proof (cases "truthy_str (access_token st)")
      case True
      with that have "utcnow_main w \<le> utcnow_main w2" by simp
      with need show ?thesis by (rule needs_refresh_later) simp_all
    next
      case False
      then show ?thesis by (simp add: needs_refresh_no_token)
    qed
    from iteration_starts_with_token_request [OF n, of cfg] n show ?thesis by simp
  qed
  have r: "refresh_access_token w (globs st) =
             (None, globs st, [TokenRequest (SPOTIFY_REFRESH_TOKEN (globs st))])"
    using refresh_access_token_not_200 [of w 400 "Some d"] resp by simp
  have r': "refresh_access_token ?w' (globs st) =
             (None, globs st, [TokenRequest (SPOTIFY_REFRESH_TOKEN (globs st))])"
    using refresh_access_token_not_200 [of ?w'] by simp
  have need': "needs_refresh ?w' st = Inr True"
    using needs_refresh_later [OF need, of ?w' st] by simp
  have same: "iteration cfg w st = iteration cfg ?w' st"
    using iteration_refresh_failed [OF need r poll] iteration_refresh_failed [OF need' r' poll]
    by simp
  have pass: "iteration cfg w st =
             (if max_failures \<le> consecutive_failures st + 1
              then Exit 1 [TokenRequest (SPOTIFY_REFRESH_TOKEN (globs st))]
              else Continue ?st'
                     [TokenRequest (SPOTIFY_REFRESH_TOKEN (globs st)),
                      Sleep (min (POLL_INTERVAL cfg * real (consecutive_failures st + 1)) 300)])"
    using iteration_refresh_failed [OF need r poll] by simp
  from again have next_pass:
    "\<forall>w2. \<not> truthy_str (access_token st) \<or> utcnow_main w \<le> utcnow_main w2 \<longrightarrow>
       needs_refresh w2 ?st' = Inr True
       \<and> (\<exists>rest. events_of (iteration cfg w2 ?st')
                  = TokenRequest (SPOTIFY_REFRESH_TOKEN (globs st)) # rest)"
    by blast
  show ?thesis
    using r pass same next_pass by (intro conjI)
qed

theorem invalid_grant_counts_as_failed_refresh_witness:
  "token_response world_invalid_grant = Response 400 (Some token_invalid_grant) \<and>
   tj_error token_invalid_grant = Val ''invalid_grant'' \<and>
   iteration example_config world_invalid_grant
     ((initial_state example_time example_globals)\<lparr>consecutive_failures := 4\<rparr>) =
     Exit 1 [TokenRequest ''rt0''] \<and>
   iteration example_config world_invalid_grant (initial_state example_time example_globals) =
     Continue ((initial_state example_time example_globals)\<lparr>consecutive_failures := 1\<rparr>)
       [TokenRequest ''rt0'', Sleep 15] \<and>
   (\<exists>rest. events_of (iteration example_config world_invalid_grant
                       ((initial_state example_time example_globals)\<lparr>consecutive_failures := 1\<rparr>))
            = TokenRequest ''rt0'' # rest)"
proof -
  let ?st0 = "initial_state example_time example_globals"
  let ?st4 = "(initial_state example_time example_globals)\<lparr>consecutive_failures := 4\<rparr>"
  have resp: "token_response world_invalid_grant = Response 400 (Some token_invalid_grant)"
    by (simp add: world_invalid_grant_def example_world_def)
  have grant: "tj_error token_invalid_grant = Val ''invalid_grant''"
    by (simp add: token_invalid_grant_def)
  have no_token: "\<not> truthy_str (access_token ?st0)"
    by (simp add: initial_state_def truthy_str_def)
  have need0: "needs_refresh world_invalid_grant ?st0 = Inr True"
    by (simp add: needs_refresh_def initial_state_def truthy_str_def)
  have need4: "needs_refresh world_invalid_grant ?st4 = Inr True"
    by (simp add: needs_refresh_def initial_state_def truthy_str_def)
  have poll: "0 \<le> POLL_INTERVAL example_config"
    by (simp add: example_config_def)
  have last: "iteration example_config world_invalid_grant ?st4 = Exit 1 [TokenRequest ''rt0'']"
    using invalid_grant_counts_as_failed_refresh [OF resp grant need4 poll]
    by (simp add: initial_state_def example_globals_def max_failures_def)
  note first = invalid_grant_counts_as_failed_refresh [OF resp grant need0 poll]
  have pass: "iteration example_config world_invalid_grant ?st0 =
      Continue (?st0\<lparr>consecutive_failures := 1\<rparr>) [TokenRequest ''rt0'', Sleep 15]"
    using first
    by (simp add: initial_state_def example_globals_def max_failures_def example_config_def)
  from first have "\<forall>w2. \<not> truthy_str (access_token ?st0)
        \<or> utcnow_main world_invalid_grant \<le> utcnow_main w2 \<longrightarrow>
      needs_refresh w2 (?st0\<lparr>consecutive_failures := consecutive_failures ?st0 + 1\<rparr>) = Inr True
      \<and> (\<exists>rest. events_of (iteration example_config w2
                  (?st0\<lparr>consecutive_failures := consecutive_failures ?st0 + 1\<rparr>))
              = TokenRequest (SPOTIFY_REFRESH_TOKEN (globs ?st0)) # rest)"
    by (rule conjunct2 [OF conjunct2 [OF conjunct2]])
  with no_token have "\<exists>rest. events_of (iteration example_config world_invalid_grant
                  (?st0\<lparr>consecutive_failures := consecutive_failures ?st0 + 1\<rparr>))
              = TokenRequest (SPOTIFY_REFRESH_TOKEN (globs ?st0)) # rest"
    by blast
  then have again: "\<exists>rest. events_of (iteration example_config world_invalid_grant
                       (?st0\<lparr>consecutive_failures := 1\<rparr>)) = TokenRequest ''rt0'' # rest"
    by (simp add: initial_state_def example_globals_def)
  from resp grant last pass again show ?thesis by simp
qed

text \<open>
  The claim as stated fails: after \<open>invalid_grant\<close> at the first pass the loop does
  not exit; it sleeps 15 seconds and sends the token request again.
\<close>

theorem invalid_grant_is_retried_counterexample:
  "token_response world_invalid_grant = Response 400 (Some token_invalid_grant) \<and>
   tj_error token_invalid_grant = Val ''invalid_grant'' \<and>
   main_loop example_config [world_invalid_grant, world_invalid_grant]
     (initial_state example_time example_globals) =
     [Continue ((initial_state example_time example_globals)\<lparr>consecutive_failures := 1\<rparr>)
        [TokenRequest ''rt0'', Sleep 15],
      Continue ((initial_state example_time example_globals)\<lparr>consecutive_failures := 2\<rparr>)
        [TokenRequest ''rt0'', Sleep 30]]"
  by (simp add: iteration_def token_phase_def needs_refresh_def initial_state_def truthy_str_def
      refresh_access_token_def refresh_access_token_body_def world_invalid_grant_def
      example_world_def token_invalid_grant_def dict_get_def example_globals_def
      example_config_def max_failures_def sleep_def Let_def)


lemma set_github_status_fails_iff:
  "\<not> fst (set_github_status w m e) \<longleftrightarrow>
     (github_response w = ConnectionError
      \<or> (\<exists>c b. github_response w = Response c b
             \<and> (c \<noteq> 200 \<or> b = None \<or> (\<exists>d. b = Some d \<and> gj_errors_present d))))"
  by (auto simp: set_github_status_def Let_def split: http_result.splits option.splits)

lemma publish_changes_last_status:
  "publish_changes cfg w st m e = (st', ev) \<Longrightarrow>
     last_status st' = last_status st \<or> last_status st' = m"
  by (auto simp: publish_changes_def split: if_splits prod.splits)

lemma poll_phase_last_status:
  assumes "poll_phase cfg w st ev = Continue st' ev'"
  shows "last_status st' = last_status st
         \<or> (fst (get_current_playing cfg w (access_token st)) \<noteq> TOKEN_EXPIRED
            \<and> last_status st' = fst (status_of (fst (get_current_playing cfg w (access_token st)))))"
proof (cases "fst (get_current_playing cfg w (access_token st)) = TOKEN_EXPIRED")
  case True
  with assms poll_phase_expired [OF True, of ev] show ?thesis by auto
next
  case False
  obtain m e where so: "status_of (fst (get_current_playing cfg w (access_token st))) = (m, e)"
    by (cases "status_of (fst (get_current_playing cfg w (access_token st)))")
  obtain st1 ev1 where pc: "publish_changes cfg w st m e = (st1, ev1)"
    by (cases "publish_changes cfg w st m e")
  from assms False so pc have "st' = st1"
    by (cases "get_current_playing cfg w (access_token st)")
       (auto simp: poll_phase_def handle_exception_def split: sum.splits)
  with publish_changes_last_status [OF pc] False so show ?thesis by auto
qed

lemma token_phase_Inl:
  "token_phase cfg w st = Inl (Continue st' ev) \<Longrightarrow> last_status st' = last_status st"
  by (auto simp: token_phase_def Let_def handle_exception_def
      split: sum.splits bool.splits prod.splits option.splits if_splits)

lemma iteration_last_status:
  assumes "iteration cfg w st = Continue st' ev"
  shows "last_status st' = last_status st \<or> candidate_of cfg w st = Some (last_status st')"
proof (cases "token_phase cfg w st")
  case (Inl out)
  with assms token_phase_Inl [of cfg w st st' ev] show ?thesis
    by (simp add: iteration_def)
next
  case (Inr p)
  obtain st1 ev1 where p: "p = (st1, ev1)" by (cases p)
  with Inr assms have "poll_phase cfg w st1 ev1 = Continue st' ev"
    by (simp add: iteration_def)
  from poll_phase_last_status [OF this] token_phase_Inr [of cfg w st st1 ev1] Inr p
  show ?thesis
    by (auto simp: candidate_of_def split: poll_result.splits)
qed

lemma count_changes_run:
  "count_changes (last_status st # statuses (main_loop cfg ws st))
     \<le> count_changes (c # candidates cfg ws st) + (if last_status st \<noteq> c then 1 else 0)"
proof (induction ws arbitrary: st c)
  case Nil
  then show ?case by simp
next
  case (Cons w ws)
  show ?case
  proof (cases "iteration cfg w st")
    case (Exit code ev)
    then show ?thesis by simp
  next
    case (Continue st' ev)
    note step = iteration_last_status [OF Continue]
    show ?thesis
    proof (cases "candidate_of cfg w st")
      case None
      with step have "last_status st' = last_status st" by simp
      with Cons.IH [of st' c] Continue None show ?thesis by simp
    next
      case (Some c')
      from Cons.IH [of st' c'] Continue Some step show ?thesis
        by (auto split: if_splits)
    qed
  qed
qed


lemma candidate_of_Some:
  assumes "candidate_of cfg w st = Some c"
  obtains st1 ev1 r where "token_phase cfg w st = Inr (st1, ev1)"
    and "fst (get_current_playing cfg w (access_token st1)) = r" and "r \<noteq> TOKEN_EXPIRED"
    and "fst (status_of r) = c"
  using assms
  by (auto simp: candidate_of_def split: sum.splits prod.splits poll_result.splits)

lemma poll_phase_polled_negative:
  assumes "fst (get_current_playing cfg w (access_token st)) = r" and "r \<noteq> TOKEN_EXPIRED"
      and "status_of r = (m, e)" and "publish_changes cfg w st m e = (st', ev2)"
      and "POLL_INTERVAL cfg < 0"
  shows "poll_phase cfg w st ev = Exit 1 (ev @ [PlaybackRequest (access_token st)] @ ev2)"
  using assms get_current_playing_events [of cfg w "access_token st"]
  by (cases "get_current_playing cfg w (access_token st)")
     (simp add: poll_phase_def handle_exception_def sleep_def)

lemma iteration_unchanged_candidate:
  assumes "candidate_of cfg w st = Some (last_status st)"
  shows "\<not> list_ex is_status_request (events_of (iteration cfg w st))
         \<and> (\<forall>st' ev. iteration cfg w st = Continue st' ev \<longrightarrow> last_status st' = last_status st)"
proof -
  from assms obtain st1 ev1 r where
    reach: "token_phase cfg w st = Inr (st1, ev1)"
    and r: "fst (get_current_playing cfg w (access_token st1)) = r" "r \<noteq> TOKEN_EXPIRED"
    and c: "fst (status_of r) = last_status st"
    by (rule candidate_of_Some)
  from token_phase_Inr [OF reach] have kept: "last_status st1 = last_status st"
    and quiet: "\<not> list_ex is_status_request ev1" by simp_all
  obtain e where so: "status_of r = (last_status st1, e)"
    using c kept by (cases "status_of r") simp
  have pc: "publish_changes cfg w st1 (last_status st1) e = (st1, [])"
    by (simp add: publish_changes_unchanged)
  have it: "iteration cfg w st = poll_phase cfg w st1 ev1"
    using reach by (simp add: iteration_def)
  show ?thesis
  proof (cases "0 \<le> POLL_INTERVAL cfg")
    case True
    have "poll_phase cfg w st1 ev1 =
            Continue st1 (ev1 @ [PlaybackRequest (access_token st1)] @ []
                          @ [Sleep (POLL_INTERVAL cfg)])"
      using r so pc True by (rule poll_phase_polled)
    with it quiet kept show ?thesis by simp
  next
    case False
    then have neg: "POLL_INTERVAL cfg < 0" by simp
    have "poll_phase cfg w st1 ev1 = Exit 1 (ev1 @ [PlaybackRequest (access_token st1)] @ [])"
      using r so pc neg by (rule poll_phase_polled_negative)
    with it quiet show ?thesis by simp
  qed
qed

text \<open>
  C4. A pass whose candidate message equals \<open>last_status\<close> sends no status request
  and leaves \<open>last_status\<close> as it is. Over any run, \<open>last_status\<close> changes at most as
  often as the candidate message does (counted from the initial \<open>last_status\<close>).
\<close>

theorem unchanged_candidate_is_not_published:
  "(candidate_of cfg w st = Some (last_status st) \<longrightarrow>
      \<not> list_ex is_status_request (events_of (iteration cfg w st))
      \<and> (\<forall>st' ev. iteration cfg w st = Continue st' ev \<longrightarrow> last_status st' = last_status st))
   \<and> count_changes (last_status st # statuses (main_loop cfg ws st))
       \<le> count_changes (last_status st # candidates cfg ws st)"
proof (rule conjI)
  show "candidate_of cfg w st = Some (last_status st) \<longrightarrow>
      \<not> list_ex is_status_request (events_of (iteration cfg w st))
      \<and> (\<forall>st' ev. iteration cfg w st = Continue st' ev \<longrightarrow> last_status st' = last_status st)"
    by (rule impI) (rule iteration_unchanged_candidate)
  show "count_changes (last_status st # statuses (main_loop cfg ws st))
       \<le> count_changes (last_status st # candidates cfg ws st)"
    using count_changes_run [of st cfg ws "last_status st"] by simp
qed

text \<open>
  C3. A pass that polls a candidate different from \<open>last_status\<close>, calls
  \<open>set_github_status\<close> and gets \<open>False\<close>: \<open>last_status\<close> is unchanged, and a next pass
  that polls the same candidate sends the status request again.
  \<open>set_github_status\<close> returns \<open>False\<close> exactly for a connection error, a status other
  than 200, an unreadable body or a body with \<open>errors\<close>.
\<close>

theorem failed_publish_keeps_last_status:
  assumes reach: "token_phase cfg w st = Inr (st1, ev)"
      and polled: "fst (get_current_playing cfg w (access_token st1)) = r" "r \<noteq> TOKEN_EXPIRED"
        "status_of r = (m, e)"
      and changed: "m \<noteq> last_status st"
      and wanted: "m \<noteq> None \<or> CLEAR_STATUS_WHEN_IDLE cfg"
      and failed: "\<not> fst (set_github_status w m e)"
      and poll: "0 \<le> POLL_INTERVAL cfg"
      and reach2: "token_phase cfg w2 st1 = Inr (st2, ev')"
      and polled2: "fst (get_current_playing cfg w2 (access_token st2)) = r2" "r2 \<noteq> TOKEN_EXPIRED"
        "status_of r2 = (m, e2)"
  shows "iteration cfg w st =
           Continue st1 (ev @ [PlaybackRequest (access_token st1), StatusRequest m e,
                               Sleep (POLL_INTERVAL cfg)])
         \<and> last_status st1 = last_status st
         \<and> StatusRequest m e2 \<in> set (events_of (iteration cfg w2 st1))
         \<and> (github_response w = ConnectionError
            \<or> (\<exists>c b. github_response w = Response c b
                   \<and> (c \<noteq> 200 \<or> b = None \<or> (\<exists>d. b = Some d \<and> gj_errors_present d))))"
proof -
  have kept: "last_status st1 = last_status st"
    using token_phase_Inr [OF reach] by simp
  have kept2: "last_status st2 = last_status st"
    using token_phase_Inr [OF reach2] kept by simp
  have e: "(if m = None then None else e) = e"
    using status_of_None polled(3) by auto
  have e2: "(if m = None then None else e2) = e2"
    using status_of_None polled2(3) by auto
  have pc: "publish_changes cfg w st1 m e = (st1, [StatusRequest m e])"
    using publish_changes_attempt [of m st1 cfg w e] changed wanted failed kept e by simp
  have first: "iteration cfg w st =
           Continue st1 (ev @ [PlaybackRequest (access_token st1), StatusRequest m e,
                               Sleep (POLL_INTERVAL cfg)])"
    using reach poll_phase_polled [OF polled pc poll, of ev] by (simp add: iteration_def)
  obtain st3 where pc2: "publish_changes cfg w2 st2 m e2 = (st3, [StatusRequest m e2])"
    using publish_changes_attempt [of m st2 cfg w2 e2] changed wanted kept2 e2 by simp
  have "iteration cfg w2 st1 =
           Continue st3 (ev' @ [PlaybackRequest (access_token st2)] @ [StatusRequest m e2]
                         @ [Sleep (POLL_INTERVAL cfg)])"
    using reach2 poll_phase_polled [OF polled2 pc2 poll, of ev'] by (simp add: iteration_def)
  then have again: "StatusRequest m e2 \<in> set (events_of (iteration cfg w2 st1))"
    by simp
  from first kept again failed show ?thesis
    by (simp add: set_github_status_fails_iff)
qed

subsection \<open>Example passes\<close>

lemma poll_song_playing:
  assumes "playing_response w = Response 200 (Some song_playing)" and "now_poll w = example_time"
  shows "get_current_playing cfg w tok =
           (TrackInfo (STATUS_PREFIX cfg @ ''Song by A, B'') (example_time + 30000000),
            [PlaybackRequest tok])"
  using assms
  by (simp add: get_current_playing_def get_current_playing_body_def song_playing_def
      song_item_def dict_get_def dict_get_default_def item_truthy_def truthy_bool_def
      dict_item_def join_artists_def bind_exn_def format_str_def py_sub_def
      timedelta_milliseconds_def timedelta_def timedelta_min_def timedelta_max_def
      datetime_add_def datetime_max_def example_time_def Let_def)

lemma token_phase_token_valid:
  assumes "truthy_str (access_token st)" and "expires_at_token st = example_time + 3600000000"
      and "utcnow_main w = example_time"
  shows "token_phase cfg w st = Inr (st, [])"
  using assms
  by (simp add: token_phase_def needs_refresh_def datetime_add_def datetime_max_def
      example_time_def bind_exn_def)

text \<open>
  C5, as amended. A pass that polls an idle player while \<open>CLEAR_STATUS_WHEN_IDLE\<close>
  is false sends no status request and leaves \<open>last_status\<close> as it is. At a later
  pass that starts with that \<open>last_status\<close> and polls a track, the status request is
  sent when the track's message differs from \<open>last_status\<close>, and no status request is
  sent when it equals \<open>last_status\<close>.
\<close>

theorem idle_skip_keeps_last_status:
  assumes reach: "token_phase cfg w st = Inr (st1, ev)"
      and idle: "fst (get_current_playing cfg w (access_token st1)) = PNone"
      and noclear: "\<not> CLEAR_STATUS_WHEN_IDLE cfg"
      and poll: "0 \<le> POLL_INTERVAL cfg"
      and later: "last_status sta = last_status st1"
      and reach2: "token_phase cfg w2 sta = Inr (st2, ev')"
      and polled2: "fst (get_current_playing cfg w2 (access_token st2)) = TrackInfo msg expiry"
  shows "iteration cfg w st =
           Continue st1 (ev @ [PlaybackRequest (access_token st1), Sleep (POLL_INTERVAL cfg)])
         \<and> last_status st1 = last_status st
         \<and> (Some msg \<noteq> last_status st \<longrightarrow>
              StatusRequest (Some msg) (Some expiry) \<in> set (events_of (iteration cfg w2 sta)))
         \<and> (Some msg = last_status st \<longrightarrow>
              \<not> list_ex is_status_request (events_of (iteration cfg w2 sta)))"
proof -
  have kept: "last_status st1 = last_status st"
    using token_phase_Inr [OF reach] by simp
  have kept2: "last_status st2 = last_status st"
    using token_phase_Inr [OF reach2] kept later by simp
  have quiet2: "\<not> list_ex is_status_request ev'"
    using token_phase_Inr [OF reach2] by simp
  have nexp: "PNone \<noteq> TOKEN_EXPIRED" "TrackInfo msg expiry \<noteq> TOKEN_EXPIRED"
    by simp_all
  have so1: "status_of PNone = (None, None)" by (simp add: status_of_def)
  have pc: "publish_changes cfg w st1 None None = (st1, [])"
    using noclear by (rule publish_changes_skip)
  have "poll_phase cfg w st1 ev =
          Continue st1 (ev @ [PlaybackRequest (access_token st1)] @ [] @ [Sleep (POLL_INTERVAL cfg)])"
    using idle nexp(1) so1 pc poll by (rule poll_phase_polled)
  then have first: "iteration cfg w st =
           Continue st1 (ev @ [PlaybackRequest (access_token st1), Sleep (POLL_INTERVAL cfg)])"
    using reach by (simp add: iteration_def)
  have so2: "status_of (TrackInfo msg expiry) = (Some msg, Some expiry)"
    by (simp add: status_of_def)
  have it2: "iteration cfg w2 sta = poll_phase cfg w2 st2 ev'"
    using reach2 by (simp add: iteration_def)
  have differs: "StatusRequest (Some msg) (Some expiry) \<in> set (events_of (iteration cfg w2 sta))"
    if "Some msg \<noteq> last_status st"
  proof -
    have ne: "Some msg \<noteq> last_status st2"
      using that kept2 by simp
    have "snd (publish_changes cfg w2 st2 (Some msg) (Some expiry))
            = [StatusRequest (Some msg) (Some expiry)]"
      using publish_changes_attempt [OF ne, of cfg w2 "Some expiry"] by simp
    then obtain st3 where pc2: "publish_changes cfg w2 st2 (Some msg) (Some expiry)
        = (st3, [StatusRequest (Some msg) (Some expiry)])"
      by (cases "publish_changes cfg w2 st2 (Some msg) (Some expiry)") simp
    have "poll_phase cfg w2 st2 ev' =
           Continue st3 (ev' @ [PlaybackRequest (access_token st2)]
                         @ [StatusRequest (Some msg) (Some expiry)] @ [Sleep (POLL_INTERVAL cfg)])"
      using polled2 nexp(2) so2 pc2 poll by (rule poll_phase_polled)
    with it2 show ?thesis by simp
  qed
  have same: "\<not> list_ex is_status_request (events_of (iteration cfg w2 sta))"
    if "Some msg = last_status st"
  proof -
    have "Some msg = last_status st2"
      using that kept2 by simp
    then have pc2: "publish_changes cfg w2 st2 (Some msg) (Some expiry) = (st2, [])"
      by (rule publish_changes_unchanged)
    have "poll_phase cfg w2 st2 ev' =
           Continue st2 (ev' @ [PlaybackRequest (access_token st2)] @ [] @ [Sleep (POLL_INTERVAL cfg)])"
      using polled2 nexp(2) so2 pc2 poll by (rule poll_phase_polled)
    with it2 quiet2 show ?thesis by simp
  qed
  show ?thesis
    using first kept differs same by (intro conjI impI)
qed


lemma get_current_playing_204:
  "playing_response w = Response 204 body \<Longrightarrow>
     get_current_playing cfg w tok = (PNone, [PlaybackRequest tok])"
  by (simp add: get_current_playing_def get_current_playing_body_def)

lemma state_playing_token:
  "truthy_str (access_token (state_playing\<lparr>last_status := l\<rparr>))"
  "expires_at_token (state_playing\<lparr>last_status := l\<rparr>) = example_time + 3600000000"
  "truthy_str (access_token state_playing)"
  "expires_at_token state_playing = example_time + 3600000000"
  by (simp_all add: state_playing_def truthy_str_def)

lemma example_worlds:
  "utcnow_main example_world = example_time"
  "utcnow_main world_idle = example_time"
  "utcnow_main world_publish_fails = example_time"
  "playing_response example_world = Response 200 (Some song_playing)"
  "playing_response world_publish_fails = Response 200 (Some song_playing)"
  "playing_response world_idle = Response 204 None"
  "now_poll example_world = example_time"
  "now_poll world_publish_fails = example_time"
  "github_response world_publish_fails = ConnectionError"
  by (simp_all add: example_world_def world_idle_def world_publish_fails_def)

theorem idle_skip_keeps_last_status_witness:
  "\<not> CLEAR_STATUS_WHEN_IDLE (example_config\<lparr>CLEAR_STATUS_WHEN_IDLE := False\<rparr>) \<and>
   iteration (example_config\<lparr>CLEAR_STATUS_WHEN_IDLE := False\<rparr>) world_idle
       (state_playing\<lparr>last_status := Some ''Now: Other by C''\<rparr>) =
     Continue (state_playing\<lparr>last_status := Some ''Now: Other by C''\<rparr>)
       [PlaybackRequest (Some ''at1''), Sleep 15] \<and>
   StatusRequest (Some ''Now: Song by A, B'') (Some (example_time + 30000000))
     \<in> set (events_of (iteration (example_config\<lparr>CLEAR_STATUS_WHEN_IDLE := False\<rparr>) example_world
                        (state_playing\<lparr>last_status := Some ''Now: Other by C''\<rparr>)))"
proof -
  let ?cfg = "example_config\<lparr>CLEAR_STATUS_WHEN_IDLE := False\<rparr>"
  let ?st = "state_playing\<lparr>last_status := Some ''Now: Other by C''\<rparr>"
  have reach: "token_phase ?cfg world_idle ?st = Inr (?st, [])"
    by (rule token_phase_token_valid) (simp_all add: state_playing_token example_worlds)
  have idle: "fst (get_current_playing ?cfg world_idle (access_token ?st)) = PNone"
    by (simp add: get_current_playing_204 example_worlds)
  have noclear: "\<not> CLEAR_STATUS_WHEN_IDLE ?cfg" by simp
  have poll: "0 \<le> POLL_INTERVAL ?cfg" by (simp add: example_config_def)
  have reach2: "token_phase ?cfg example_world ?st = Inr (?st, [])"
    by (rule token_phase_token_valid) (simp_all add: state_playing_token example_worlds)
  have polled2: "fst (get_current_playing ?cfg example_world (access_token ?st))
                 = TrackInfo ''Now: Song by A, B'' (example_time + 30000000)"
    by (simp add: poll_song_playing example_worlds example_config_def)
  from idle_skip_keeps_last_status [OF reach idle noclear poll refl reach2 polled2] noclear show ?thesis
    by (simp add: state_playing_def example_config_def)
qed

text \<open>
  The claim as stated fails when the track that was published resumes after the idle
  gap: the second pass polls a non-null candidate and sends no status request.
\<close>

theorem resumed_track_is_not_republished_counterexample:
  "\<not> CLEAR_STATUS_WHEN_IDLE (example_config\<lparr>CLEAR_STATUS_WHEN_IDLE := False\<rparr>) \<and>
   last_status state_playing = Some ''Now: Song by A, B'' \<and>
   candidate_of (example_config\<lparr>CLEAR_STATUS_WHEN_IDLE := False\<rparr>) world_idle state_playing
     = Some None \<and>
   candidate_of (example_config\<lparr>CLEAR_STATUS_WHEN_IDLE := False\<rparr>) example_world state_playing
     = Some (Some ''Now: Song by A, B'') \<and>
   main_loop (example_config\<lparr>CLEAR_STATUS_WHEN_IDLE := False\<rparr>) [world_idle, example_world]
       state_playing =
     [Continue state_playing [PlaybackRequest (Some ''at1''), Sleep 15],
      Continue state_playing [PlaybackRequest (Some ''at1''), Sleep 15]]"
proof -
  let ?cfg = "example_config\<lparr>CLEAR_STATUS_WHEN_IDLE := False\<rparr>"
  have reach: "token_phase ?cfg w state_playing = Inr (state_playing, [])"
    if "utcnow_main w = example_time" for w
    using that by (intro token_phase_token_valid) (simp_all add: state_playing_token)
  have tok: "access_token state_playing = Some ''at1''"
    and last: "last_status state_playing = Some ''Now: Song by A, B''"
    by (simp_all add: state_playing_def)
  have prefix: "STATUS_PREFIX ?cfg = ''Now: ''" and poll: "POLL_INTERVAL ?cfg = 15"
    by (simp_all add: example_config_def)
  have idle: "iteration ?cfg world_idle state_playing =
                Continue state_playing [PlaybackRequest (Some ''at1''), Sleep 15]"
    by (simp add: iteration_def reach example_worlds poll_phase_def get_current_playing_204
        status_of_def publish_changes_def last sleep_def poll tok)
  have song: "iteration ?cfg example_world state_playing =
                Continue state_playing [PlaybackRequest (Some ''at1''), Sleep 15]"
    by (simp add: iteration_def reach example_worlds poll_phase_def poll_song_playing
        status_of_def publish_changes_def last sleep_def poll prefix tok)
  have c1: "candidate_of ?cfg world_idle state_playing = Some None"
    by (simp add: candidate_of_def reach example_worlds get_current_playing_204 status_of_def)
  have c2: "candidate_of ?cfg example_world state_playing = Some (Some ''Now: Song by A, B'')"
    by (simp add: candidate_of_def reach example_worlds poll_song_playing status_of_def prefix)
  from idle song c1 c2 last show ?thesis by simp
qed


theorem failed_publish_keeps_last_status_witness:
  "\<not> fst (set_github_status world_publish_fails (Some ''Now: Song by A, B'')
            (Some (example_time + 30000000))) \<and>
   iteration example_config world_publish_fails (state_playing\<lparr>last_status := None\<rparr>) =
     Continue (state_playing\<lparr>last_status := None\<rparr>)
       [PlaybackRequest (Some ''at1''),
        StatusRequest (Some ''Now: Song by A, B'') (Some (example_time + 30000000)),
        Sleep 15] \<and>
   StatusRequest (Some ''Now: Song by A, B'') (Some (example_time + 30000000))
     \<in> set (events_of (iteration example_config world_publish_fails
                        (state_playing\<lparr>last_status := None\<rparr>)))"
proof -
  let ?st = "state_playing\<lparr>last_status := None\<rparr>"
  let ?m = "Some ''Now: Song by A, B''"
  let ?e = "Some (example_time + 30000000)"
  have reach: "token_phase example_config world_publish_fails ?st = Inr (?st, [])"
    by (rule token_phase_token_valid) (simp_all add: state_playing_token example_worlds)
  have polled: "fst (get_current_playing example_config world_publish_fails (access_token ?st))
                 = TrackInfo ''Now: Song by A, B'' (example_time + 30000000)"
    by (simp add: poll_song_playing example_worlds example_config_def)
  have nexp: "TrackInfo ''Now: Song by A, B'' (example_time + 30000000) \<noteq> TOKEN_EXPIRED"
    by simp
  have so: "status_of (TrackInfo ''Now: Song by A, B'' (example_time + 30000000)) = (?m, ?e)"
    by (simp add: status_of_def)
  have changed: "?m \<noteq> last_status ?st"
    by simp
  have wanted: "?m \<noteq> None \<or> CLEAR_STATUS_WHEN_IDLE example_config"
    by simp
  have failed: "\<not> fst (set_github_status world_publish_fails ?m ?e)"
    by (simp add: set_github_status_def example_worlds)
  have poll: "0 \<le> POLL_INTERVAL example_config"
    by (simp add: example_config_def)
  from failed_publish_keeps_last_status
    [OF reach polled nexp so changed wanted failed poll reach polled nexp so] failed
  show ?thesis
    by (simp add: state_playing_def example_config_def)
qed

theorem unchanged_candidate_is_not_published_witness:
  "candidate_of example_config example_world state_playing = Some (last_status state_playing) \<and>
   \<not> list_ex is_status_request (events_of (iteration example_config example_world state_playing)) \<and>
   count_changes (last_status state_playing
                  # statuses (main_loop example_config [example_world, world_idle] state_playing))
     \<le> count_changes (last_status state_playing
                       # candidates example_config [example_world, world_idle] state_playing)"
proof -
  have reach: "token_phase example_config example_world state_playing = Inr (state_playing, [])"
    by (rule token_phase_token_valid) (simp_all add: state_playing_token example_worlds)
  have polled: "get_current_playing example_config example_world (access_token state_playing)
                 = (TrackInfo ''Now: Song by A, B'' (example_time + 30000000),
                    [PlaybackRequest (access_token state_playing)])"
    by (simp add: poll_song_playing example_worlds example_config_def)
  have last: "last_status state_playing = Some ''Now: Song by A, B''"
    by (simp add: state_playing_def)
  have c: "candidate_of example_config example_world state_playing
             = Some (last_status state_playing)"
    by (simp add: candidate_of_def reach polled status_of_def last)
  from unchanged_candidate_is_not_published
    [of example_config example_world state_playing "[example_world, world_idle]"] c
  show ?thesis by simp
qed

end
